theory Spec2Isabelle
  imports Complex_Main "HOL-Library.Log_Nat" "HOL-Library.Word"
begin

section \<open>Authentication over HTTP (internal/home/authhttp.go)\<close>

text \<open>
  A shallow embedding of the handlers and the middleware of \<^verbatim>\<open>authhttp.go\<close>. Go strings
  are byte strings and are modelled as \<^typ>\<open>string\<close>; a Go result \<^verbatim>\<open>(v, err)\<close> is a pair
  whose second component is an \<open>error option\<close> (\<open>None\<close> is \<^verbatim>\<open>nil\<close>), or a sum where
  the value is never read beside an error; a pointer that may be \<^verbatim>\<open>nil\<close> is an
  \<open>option\<close>. Collaborators whose code is in other files (the user directory, the session
  storage, the rate limiter, the credential check) and the library functions on network
  addresses are parameters of the model, collected in records; hexadecimal decoding and
  path matching are modelled in full. A handler returns its response together with the
  calls it made to its collaborators, in order.
\<close>

type_synonym byte = "8 word"

subsection \<open>Errors\<close>

text \<open>
  Error values. \<open>Error\<close> is \<^verbatim>\<open>errors.Error\<close>, an error that is a constant message;
  \<open>Wrapf p e\<close> is \<^verbatim>\<open>fmt.Errorf("p: %w", e)\<close>; the others are the errors of
  \<^verbatim>\<open>encoding/hex\<close>, of \<^verbatim>\<open>validate.InRange\<close> and of \<^verbatim>\<open>path.Match\<close>.
\<close>

datatype error =
    Error string
  | Wrapf string error
  | InvalidByteError char
  | ErrLength
  | ErrLess string nat nat
  | ErrGreater string nat nat
  | ErrBadPattern

text \<open>\<^verbatim>\<open>errInvalidLogin\<close> is returned when there is an invalid login attempt.\<close>

definition errInvalidLogin :: error where
  "errInvalidLogin = Error ''invalid username or password''"

text \<open>\<^verbatim>\<open>errors.ErrNoValue\<close> of golibs.\<close>

definition ErrNoValue :: error where
  "ErrNoValue = Error ''no value''"

text \<open>\<^verbatim>\<open>errors.Annotate(err, "p: %w")\<close>: wraps an error, keeps \<^verbatim>\<open>nil\<close>.\<close>

definition Annotate :: "error option \<Rightarrow> string \<Rightarrow> error option" where
  "Annotate err p = (case err of None \<Rightarrow> None | Some e \<Rightarrow> Some (Wrapf p e))"

subsection \<open>Decoding the session cookie\<close>

text \<open>
  \<^verbatim>\<open>hex.DecodeString\<close>: the bytes are read in pairs; an invalid character is reported
  before an odd length. \<open>reverseHexTable\<close> gives a value above \<open>0x0f\<close> for a character
  that is no hexadecimal digit.
\<close>

definition reverseHexTable :: "char \<Rightarrow> nat" where
  "reverseHexTable c =
     (let n = (of_char c :: nat) in
      if 48 \<le> n \<and> n \<le> 57 then n - 48
      else if 97 \<le> n \<and> n \<le> 102 then n - 87
      else if 65 \<le> n \<and> n \<le> 70 then n - 55
      else 255)"

fun DecodeString :: "string \<Rightarrow> error + byte list" where
  "DecodeString [] = Inr []"
| "DecodeString [p] =
     (if reverseHexTable p > 15 then Inl (InvalidByteError p) else Inl ErrLength)"
| "DecodeString (p # q # src) =
     (if reverseHexTable p > 15 then Inl (InvalidByteError p)
      else if reverseHexTable q > 15 then Inl (InvalidByteError q)
      else (case DecodeString src of
              Inl e \<Rightarrow> Inl e
            | Inr dst \<Rightarrow> Inr (word_of_nat (reverseHexTable p * 16 + reverseHexTable q) # dst)))"

text \<open>
  \<^verbatim>\<open>validate.InRange(name, v, min, max)\<close>: \<^verbatim>\<open>nil\<close> when \<open>min \<le> v \<le> max\<close>.
\<close>

definition InRange :: "string \<Rightarrow> nat \<Rightarrow> nat \<Rightarrow> nat \<Rightarrow> error option" where
  "InRange name v lo hi =
     (if v < lo then Some (ErrLess name lo v)
      else if v > hi then Some (ErrGreater name hi v)
      else None)"

text \<open>
  Modelled from the spec: \<^verbatim>\<open>aghuser.SessionTokenLength\<close> is declared in another package;
  the spec asks for a fixed-length token of at least 128 bits, that is 16 bytes.
\<close>

definition SessionTokenLength :: nat where
  "SessionTokenLength = 16"

subsection \<open>Path patterns\<close>

text \<open>
  \<^verbatim>\<open>path.Match\<close> of the Go library (Go 1.24, the version the workflow file builds
  with), with its helpers \<^verbatim>\<open>scanChunk\<close>, \<^verbatim>\<open>matchChunk\<close> and \<^verbatim>\<open>getEsc\<close>. A result
  \<^verbatim>\<open>(v, err)\<close> whose value is not read beside an error is a sum; \<^verbatim>\<open>matchChunk\<close>'s
  \<^verbatim>\<open>(rest, ok, err)\<close> is \<open>Inl err\<close>, \<open>Inr None\<close> (no match) or \<open>Inr (Some rest)\<close>.

  \<^verbatim>\<open>utf8.DecodeRuneInString\<close>: the first rune of a string and its width in bytes;
  \<open>(RuneError, 1)\<close> for an invalid encoding and \<open>(RuneError, 0)\<close> for the empty string.
\<close>

definition RuneError :: nat where
  "RuneError = 65533"

fun DecodeRuneInString :: "string \<Rightarrow> nat \<times> nat" where
  "DecodeRuneInString [] = (RuneError, 0)"
| "DecodeRuneInString (c0 # s) =
     (let s0 = (of_char c0 :: nat) in
      if s0 < 128 then (s0, 1)
      else if s0 < 194 \<or> 244 < s0 then (RuneError, 1)
      else
        (let sz = (if s0 < 224 then 2 else if s0 < 240 then 3 else (4::nat));
             lo = (if s0 = 224 then 160 else if s0 = 240 then 144 else (128::nat));
             hi = (if s0 = 237 then 159 else if s0 = 244 then 143 else (191::nat))
         in if length s + 1 < sz then (RuneError, 1)
            else
              (let s1 = (of_char (s ! 0) :: nat) in
               if s1 < lo \<or> hi < s1 then (RuneError, 1)
               else if sz \<le> 2 then ((s0 mod 32) * 64 + s1 mod 64, 2)
               else
                 (let s2 = (of_char (s ! 1) :: nat) in
                  if s2 < 128 \<or> 191 < s2 then (RuneError, 1)
                  else if sz \<le> 3 then ((s0 mod 16) * 4096 + (s1 mod 64) * 64 + s2 mod 64, 3)
                  else
                    (let s3 = (of_char (s ! 2) :: nat) in
                     if s3 < 128 \<or> 191 < s3 then (RuneError, 1)
                     else ((s0 mod 8) * 262144 + (s1 mod 64) * 4096 + (s2 mod 64) * 64
                             + s3 mod 64, 4))))))"

text \<open>
  \<open>getEsc\<close> gets a possibly-escaped character from chunk, for a character class. The
  character \<open>CHR 0x5C\<close> is the backslash.
\<close>

definition getEsc :: "string \<Rightarrow> error + (nat \<times> string)" where
  "getEsc chunk0 =
     (if chunk0 = [] \<or> hd chunk0 = CHR ''-'' \<or> hd chunk0 = CHR '']'' then Inl ErrBadPattern
      else
        (let chunk = (if hd chunk0 = CHR 0x5C then tl chunk0 else chunk0) in
         if chunk = [] then Inl ErrBadPattern
         else
           (let (r, n) = DecodeRuneInString chunk;
                nchunk = drop n chunk
            in if (r = RuneError \<and> n = 1) \<or> nchunk = [] then Inl ErrBadPattern
               else Inr (r, nchunk))))"

lemma DecodeRuneInString_size: "s \<noteq> [] \<Longrightarrow> 0 < snd (DecodeRuneInString s)"
  by (cases s) (auto simp: Let_def)

lemma getEsc_length:
  assumes "getEsc chunk = Inr (r, nchunk)"
  shows "length nchunk < length chunk"
proof -
  define c where "c = (if hd chunk = CHR 0x5C then tl chunk else chunk)"
  have ne: "chunk \<noteq> []" "c \<noteq> []"
    using assms by (auto simp: getEsc_def c_def Let_def split: if_splits)
  have n: "nchunk = drop (snd (DecodeRuneInString c)) c"
    using assms ne by (auto simp: getEsc_def c_def Let_def split: if_splits prod.splits)
  have "length nchunk < length c"
    using DecodeRuneInString_size [OF ne(2)] ne(2) by (simp add: n)
  moreover have "length c \<le> length chunk"
    by (simp add: c_def)
  ultimately show ?thesis by simp
qed

text \<open>
  The loop of \<^verbatim>\<open>matchChunk\<close> that parses all ranges of a character class, up to the
  closing bracket: \<open>r\<close> is the rune of the name, \<open>match\<close> and \<open>nrange\<close> are the loop's
  variables. It returns \<open>match\<close> and the chunk after the class.
\<close>

function classRanges :: "nat \<Rightarrow> bool \<Rightarrow> nat \<Rightarrow> string \<Rightarrow> error + (bool \<times> string)" where
  "classRanges r match nrange chunk =
     (if chunk \<noteq> [] \<and> hd chunk = CHR '']'' \<and> nrange > 0 then Inr (match, tl chunk)
      else
        (case getEsc chunk of
           Inl err \<Rightarrow> Inl err
         | Inr (lo, chunk1) \<Rightarrow>
             if hd chunk1 = CHR ''-'' then
               (case getEsc (tl chunk1) of
                  Inl err \<Rightarrow> Inl err
                | Inr (hi, chunk2) \<Rightarrow>
                    classRanges r (match \<or> (lo \<le> r \<and> r \<le> hi)) (nrange + 1) chunk2)
             else classRanges r (match \<or> (lo \<le> r \<and> r \<le> lo)) (nrange + 1) chunk1))"
  by pat_completeness auto
termination
proof (relation "measure (\<lambda>(r, match, nrange, chunk). length chunk)", goal_cases)
  case 1
  show ?case by simp
next
  case (2 r match nrange chunk x lo chunk1 y hi chunk2)
  have "length chunk1 < length chunk"
    using 2 getEsc_length [of chunk lo chunk1] by simp
  moreover have "length chunk2 < length (tl chunk1)"
    using 2 getEsc_length [of "tl chunk1" hi chunk2] by simp
  ultimately show ?case by simp
next
  case (3 r match nrange chunk x lo chunk1)
  then show ?case
    using getEsc_length [of chunk lo chunk1] by simp
qed

declare classRanges.simps [simp del]

lemma classRanges_length:
  "classRanges r match nrange chunk = Inr (m, chunk') \<Longrightarrow> length chunk' \<le> length chunk"
proof (induction r match nrange chunk rule: classRanges.induct)
  case (1 r match nrange chunk)
  show ?case
  proof (cases "chunk \<noteq> [] \<and> hd chunk = CHR '']'' \<and> nrange > 0")
    case True
    then show ?thesis using "1.prems" by (subst (asm) classRanges.simps) auto
  next
    case False
    show ?thesis
    proof (cases "getEsc chunk")
      case (Inl err)
      then show ?thesis using "1.prems" False by (subst (asm) classRanges.simps) auto
    next
      case (Inr p)
      obtain lo chunk1 where p: "p = (lo, chunk1)" by (cases p)
      have g1: "getEsc chunk = Inr (lo, chunk1)" using Inr p by simp
      have l1: "length chunk1 < length chunk" using getEsc_length g1 by blast
      show ?thesis
      proof (cases "hd chunk1 = CHR ''-''")
        case True
        show ?thesis
        proof (cases "getEsc (tl chunk1)")
          case (Inl err)
          then show ?thesis using "1.prems" False g1 True
            by (subst (asm) classRanges.simps) auto
        next
          case I2: (Inr q)
          obtain hi chunk2 where q: "q = (hi, chunk2)" by (cases q)
          have g2: "getEsc (tl chunk1) = Inr (hi, chunk2)" using I2 q by simp
          have l2: "length chunk2 < length (tl chunk1)" using getEsc_length g2 by blast
          have "classRanges r (match \<or> (lo \<le> r \<and> r \<le> hi)) (nrange + 1) chunk2 = Inr (m, chunk')"
            using "1.prems" False g1 True g2 by (subst (asm) classRanges.simps) auto
          then have "length chunk' \<le> length chunk2"
            using "1.IH"(1) [OF False Inr p [symmetric] True I2 q [symmetric]] by simp
          then show ?thesis using l1 l2 by simp
        qed
      next
        case F2: False
        have "classRanges r (match \<or> (lo \<le> r \<and> r \<le> lo)) (nrange + 1) chunk1 = Inr (m, chunk')"
          using "1.prems" False g1 F2 by (subst (asm) classRanges.simps) auto
        then have "length chunk' \<le> length chunk1"
          using "1.IH"(2) [OF False Inr p [symmetric] F2] by simp
        then show ?thesis using l1 by simp
      qed
    qed
  qed
qed

text \<open>
  \<open>matchChunk\<close> checks whether chunk matches the beginning of \<open>s\<close>. If so, it returns
  the remainder of \<open>s\<close> (after the match). After the match fails, the loop continues on
  processing chunk, checking that the pattern is well-formed but no longer reading \<open>s\<close>:
  \<open>hd s\<close> and \<open>tl s\<close> are read only where \<open>failed\<close> is false, and there \<open>s\<close> is not
  empty.
\<close>

function matchChunk_loop :: "bool \<Rightarrow> string \<Rightarrow> string \<Rightarrow> error + string option" where
  "matchChunk_loop failed0 chunk s =
     (case chunk of
        [] \<Rightarrow> if failed0 then Inr None else Inr (Some s)
      | c # chunk1 \<Rightarrow>
          (let failed = (failed0 \<or> s = []) in
           if c = CHR ''['' then
             (let r = (if \<not> failed then fst (DecodeRuneInString s) else 0);
                  s1 = (if \<not> failed then drop (snd (DecodeRuneInString s)) s else s);
                  negated = (chunk1 \<noteq> [] \<and> hd chunk1 = CHR ''^'');
                  chunk2 = (if negated then tl chunk1 else chunk1)
              in case classRanges r False 0 chunk2 of
                   Inl err \<Rightarrow> Inl err
                 | Inr (match, chunk3) \<Rightarrow>
                     matchChunk_loop (failed \<or> match = negated) chunk3 s1)
           else if c = CHR ''?'' then
             (if \<not> failed
              then matchChunk_loop (hd s = CHR ''/'') chunk1
                     (drop (snd (DecodeRuneInString s)) s)
              else matchChunk_loop failed chunk1 s)
           else if c = CHR 0x5C then
             (case chunk1 of
                [] \<Rightarrow> Inl ErrBadPattern
              | d # chunk2 \<Rightarrow>
                  if \<not> failed then matchChunk_loop (d \<noteq> hd s) chunk2 (tl s)
                  else matchChunk_loop failed chunk2 s)
           else
             (if \<not> failed then matchChunk_loop (c \<noteq> hd s) chunk1 (tl s)
              else matchChunk_loop failed chunk1 s)))"
  by pat_completeness auto
termination
proof (relation "measure (\<lambda>(failed, chunk, s). length chunk)", goal_cases)
  case 1
  show ?case by simp
next
  case (2 failed0 chunk s c chunk1 failed r s1 negated chunk2 x match chunk3)
  have "length chunk3 \<le> length chunk2"
    using 2 classRanges_length [of r False 0 chunk2 match chunk3] by simp
  moreover have "length chunk2 \<le> length chunk1"
    using 2 by simp
  ultimately show ?case using 2 by simp
qed simp_all

declare matchChunk_loop.simps [simp del]

definition matchChunk :: "string \<Rightarrow> string \<Rightarrow> error + string option" where
  "matchChunk chunk s = matchChunk_loop False chunk s"

text \<open>
  \<open>scanChunk\<close> gets the next segment of pattern, which is a non-star string possibly
  preceded by a star. \<open>scanLoop\<close> is its scan for the end of the chunk; it returns
  \<^verbatim>\<open>pattern[0:i]\<close> and \<^verbatim>\<open>pattern[i:]\<close>.
\<close>

fun scanLoop :: "bool \<Rightarrow> string \<Rightarrow> string \<times> string" where
  "scanLoop inrange [] = ([], [])"
| "scanLoop inrange (c # p) =
     (if c = CHR 0x5C then
        (case p of
           [] \<Rightarrow> ([c], [])
         | d # p' \<Rightarrow> (case scanLoop inrange p' of (chunk, rest) \<Rightarrow> (c # d # chunk, rest)))
      else if c = CHR ''['' then
        (case scanLoop True p of (chunk, rest) \<Rightarrow> (c # chunk, rest))
      else if c = CHR '']'' then
        (case scanLoop False p of (chunk, rest) \<Rightarrow> (c # chunk, rest))
      else if c = CHR ''*'' \<and> \<not> inrange then ([], c # p)
      else (case scanLoop inrange p of (chunk, rest) \<Rightarrow> (c # chunk, rest)))"

definition scanChunk :: "string \<Rightarrow> bool \<times> string \<times> string" where
  "scanChunk pattern0 =
     (let star = (pattern0 \<noteq> [] \<and> hd pattern0 = CHR ''*'');
          pattern = dropWhile (\<lambda>c. c = CHR ''*'') pattern0;
          (chunk, rest) = scanLoop False pattern
      in (star, chunk, rest))"

lemma scanLoop_length:
  "scanLoop inrange p = (chunk, rest) \<Longrightarrow>
     length rest \<le> length p \<and> (p \<noteq> [] \<and> hd p \<noteq> CHR ''*'' \<longrightarrow> length rest < length p)"
proof (induction inrange p arbitrary: chunk rest rule: scanLoop.induct)
  case (1 inrange)
  then show ?case by simp
next
  case (2 inrange c p)
  then show ?case
    by (auto split: if_splits list.splits prod.splits) fastforce+
qed

lemma scanChunk_length:
  assumes "pattern \<noteq> []" and "scanChunk pattern = (star, chunk, rest)"
  shows "length rest < length pattern"
proof (cases "hd pattern = CHR ''*''")
  case True
  obtain p where p: "pattern = CHR ''*'' # p" using assms(1) True by (cases pattern) auto
  have "length (dropWhile (\<lambda>c. c = CHR ''*'') pattern) \<le> length p"
    by (simp add: p length_dropWhile_le)
  moreover have "length rest \<le> length (dropWhile (\<lambda>c. c = CHR ''*'') pattern)"
    using assms(2) scanLoop_length [of False "dropWhile (\<lambda>c. c = CHR ''*'') pattern"]
    by (auto simp: scanChunk_def Let_def split: prod.splits)
  ultimately show ?thesis by (simp add: p)
next
  case False
  then have d: "dropWhile (\<lambda>c. c = CHR ''*'') pattern = pattern"
    using assms(1) by (cases pattern) auto
  show ?thesis
    using assms scanLoop_length [of False pattern chunk rest] False
    by (auto simp: scanChunk_def Let_def d split: prod.splits)
qed

lemma scanChunk_shorter:
  "pattern \<noteq> [] \<Longrightarrow> (star, chunk, rest) = scanChunk pattern \<Longrightarrow> length rest < length pattern"
  using scanChunk_length [of pattern star chunk rest] by simp

text \<open>
  The loop of \<open>Match\<close> that looks for a match skipping \<open>i + 1\<close> bytes (it cannot skip
  a slash); \<open>final\<close> says that the chunk is the last one of the pattern.
\<close>

datatype skip = Found string | Bad error | NoMatch

fun starLoop :: "string \<Rightarrow> bool \<Rightarrow> string \<Rightarrow> skip" where
  "starLoop chunk final [] = NoMatch"
| "starLoop chunk final (c # name') =
     (if c = CHR ''/'' then NoMatch
      else
        (case matchChunk chunk name' of
           Inr (Some t) \<Rightarrow> if final \<and> t \<noteq> [] then starLoop chunk final name' else Found t
         | Inl err \<Rightarrow> Bad err
         | Inr None \<Rightarrow> starLoop chunk final name'))"

text \<open>
  Before returning false with no error, \<open>Match\<close> checks that the remainder of the
  pattern is syntactically valid.
\<close>

function checkRest :: "string \<Rightarrow> error option" where
  "checkRest pattern =
     (if pattern = [] then None
      else
        (case scanChunk pattern of
           (_, chunk, rest) \<Rightarrow>
             (case matchChunk chunk [] of
                Inl err \<Rightarrow> Some err
              | Inr _ \<Rightarrow> checkRest rest)))"
  by pat_completeness auto
termination
proof (relation "measure length", goal_cases)
  case 1
  show ?case by simp
next
qed (auto dest: scanChunk_shorter)

declare checkRest.simps [simp del]

function Match :: "string \<Rightarrow> string \<Rightarrow> bool \<times> error option" where
  "Match pattern name =
     (if pattern = [] then (name = [], None)
      else
        (case scanChunk pattern of
           (star, chunk, rest) \<Rightarrow>
             if star \<and> chunk = [] then (CHR ''/'' \<notin> set name, None)
             else
               (case matchChunk chunk name of
                  Inr (Some t) \<Rightarrow>
                    if t = [] \<or> rest \<noteq> [] then Match rest t
                    else
                      (case (if star then starLoop chunk (rest = []) name else NoMatch) of
                         Found t' \<Rightarrow> Match rest t'
                       | Bad err \<Rightarrow> (False, Some err)
                       | NoMatch \<Rightarrow> (False, checkRest rest))
                | Inl err \<Rightarrow> (False, Some err)
                | Inr None \<Rightarrow>
                    (case (if star then starLoop chunk (rest = []) name else NoMatch) of
                       Found t' \<Rightarrow> Match rest t'
                     | Bad err \<Rightarrow> (False, Some err)
                     | NoMatch \<Rightarrow> (False, checkRest rest)))))"
  by pat_completeness auto
termination
proof (relation "measure (\<lambda>(pattern, name). length pattern)", goal_cases)
  case 1
  show ?case by simp
qed (auto dest: scanChunk_shorter)

declare Match.simps [simp del]

text \<open>
  \<open>isPublicResource\<close> returns true if \<open>p\<close> is a path to a public resource; \<open>Inl\<close> is
  the value it panics with.
\<close>

definition isPublicResource :: "string \<Rightarrow> error + bool" where
  "isPublicResource p =
     (case Match ''/assets/*'' p of
        (_, Some err) \<Rightarrow> Inl (Wrapf ''bad asset pattern'' err)
      | (isAsset, None) \<Rightarrow>
          (case Match ''/login.*'' p of
             (_, Some err) \<Rightarrow> Inl (Wrapf ''bad login pattern'' err)
           | (isLogin, None) \<Rightarrow> Inr (isAsset \<or> isLogin)))"

subsection \<open>The default authentication middleware\<close>

text \<open>
  A user of the directory: its login and \<^verbatim>\<open>Password.Authenticate\<close>. A stored session
  names its user by login.
\<close>

record User =
  Login :: string
  Authenticate :: "string \<Rightarrow> bool"

record Session =
  UserLogin :: string

text \<open>\<^verbatim>\<open>loginJSON\<close> is the JSON structure for authentication.\<close>

record loginJSON =
  Name :: string
  Password :: string

text \<open>
  What the handlers read of a request: the outcome of decoding the body as a
  \<^verbatim>\<open>loginJSON\<close> (\<^verbatim>\<open>json.NewDecoder(r.Body).Decode(&req)\<close>), \<^verbatim>\<open>r.RemoteAddr\<close>,
  \<^verbatim>\<open>r.Header.Get\<close> (the empty string for a header that is absent),
  \<^verbatim>\<open>r.Cookie(sessionCookieName)\<close> (\<open>None\<close> is \<^verbatim>\<open>http.ErrNoCookie\<close>, else the cookie's
  value) and \<^verbatim>\<open>r.BasicAuth()\<close> (\<open>None\<close> when \<^verbatim>\<open>ok\<close> is false).
\<close>

record Request =
  jsonBody :: "error + loginJSON"
  RemoteAddr :: string
  HeaderGet :: "string \<Rightarrow> string"
  sessionCookie :: "string option"
  basicAuth :: "(string \<times> string) option"

text \<open>
  \<^verbatim>\<open>authMiddlewareDefault\<close>: the user directory (\<^verbatim>\<open>aghuser.DB\<close>: \<open>All\<close>, \<open>ByLogin\<close>) and the
  session storage (\<^verbatim>\<open>aghuser.SessionStorage\<close>: \<open>FindByToken\<close>), each method with the pair
  it returns. The logger is the second component of what \<open>Wrap\<close> returns.
\<close>

record authMiddlewareDefault =
  users_All :: "User list \<times> error option"
  users_ByLogin :: "string \<Rightarrow> User option \<times> error option"
  sessions_FindByToken :: "byte list \<Rightarrow> Session option \<times> error option"

text \<open>\<open>userFromRequestBasicAuth\<close> searches for a user using Basic Auth credentials.\<close>

definition userFromRequestBasicAuth ::
  "authMiddlewareDefault \<Rightarrow> Request \<Rightarrow> User option \<times> error option" where
  "userFromRequestBasicAuth mw r =
     (case basicAuth r of
        None \<Rightarrow> (None, Some (Wrapf ''credentials'' ErrNoValue))
      | Some (login, pass) \<Rightarrow>
          (case fst (users_ByLogin mw login) of
             None \<Rightarrow> (None, Some errInvalidLogin)
           | Some user \<Rightarrow>
               if \<not> Authenticate user pass then (None, Some errInvalidLogin)
               else (Some user, None)))"

text \<open>
  \<open>userFromRequest\<close> tries to retrieve a user based on the request. The deferred
  \<^verbatim>\<open>errors.Annotate\<close> is applied to the error of every return.
\<close>

definition userFromRequest_body ::
  "authMiddlewareDefault \<Rightarrow> Request \<Rightarrow> User option \<times> error option" where
  "userFromRequest_body mw r =
     (case sessionCookie r of
        None \<Rightarrow> userFromRequestBasicAuth mw r
      | Some v \<Rightarrow>
          (case DecodeString v of
             Inl e \<Rightarrow> (None, Some (Wrapf ''decoding cookie'' e))
           | Inr sess \<Rightarrow>
               (case InRange ''token length'' (length sess) SessionTokenLength SessionTokenLength of
                  Some e \<Rightarrow> (None, Some e)
                | None \<Rightarrow>
                    (case sessions_FindByToken mw sess of
                       (_, Some e) \<Rightarrow> (None, Some (Wrapf ''searching session by token'' e))
                     | (None, None) \<Rightarrow> (None, None)
                     | (Some s, None) \<Rightarrow>
                         (case users_ByLogin mw (UserLogin s) of
                            (_, Some e) \<Rightarrow> (None, Some (Wrapf ''searching user by login'' e))
                          | (u, None) \<Rightarrow> (u, None))))))"

definition userFromRequest ::
  "authMiddlewareDefault \<Rightarrow> Request \<Rightarrow> User option \<times> error option" where
  "userFromRequest mw r =
     (case userFromRequest_body mw r of
        (u, err) \<Rightarrow> (u, Annotate err ''getting user from request''))"

text \<open>
  \<open>needsAuthentication\<close> returns true if the current request requires authentication;
  it panics with the directory's error (\<open>Inl\<close>).
\<close>

definition needsAuthentication :: "authMiddlewareDefault \<Rightarrow> Request \<Rightarrow> error + bool" where
  "needsAuthentication mw r =
     (case users_All mw of
        (_, Some e) \<Rightarrow> Inl e
      | (users, None) \<Rightarrow> if length users = 0 then Inr False else Inr True)"

text \<open>
  What the wrapped handler of \<open>Wrap\<close> does with a request: it calls the inner handler
  (with the web user it put into the context, if any), or it writes a status and returns
  without calling it, or it panics.
\<close>

datatype outcome =
    Served "User option"
  | Rejected nat
  | Panicked error

definition StatusUnauthorized :: nat where
  "StatusUnauthorized = 401"

text \<open>
  \<open>Wrap\<close>: the outcome, and the errors given to the logger of the middleware.
\<close>

definition Wrap :: "authMiddlewareDefault \<Rightarrow> Request \<Rightarrow> outcome \<times> error list" where
  "Wrap mw r =
     (case needsAuthentication mw r of
        Inl e \<Rightarrow> (Panicked e, [])
      | Inr False \<Rightarrow> (Served None, [])
      | Inr True \<Rightarrow>
          (case userFromRequest mw r of
             (Some u, _) \<Rightarrow> (Served (Some u), [])
           | (None, err) \<Rightarrow>
               (Rejected StatusUnauthorized,
                (case err of None \<Rightarrow> [] | Some e \<Rightarrow> [e]))))"

subsection \<open>Client addresses\<close>

text \<open>
  \<^verbatim>\<open>netip.Addr\<close>: the zero value (no address), an IPv4 address, or an IPv6 address with
  its zone. \<open>Unmap\<close> turns an IPv4-mapped IPv6 address (prefix \<^verbatim>\<open>::ffff:0:0/96\<close>) into
  the IPv4 address and leaves every other address as it is.
\<close>

datatype Addr =
    AddrZero
  | Addr4 "32 word"
  | Addr6 "128 word" string

fun Unmap :: "Addr \<Rightarrow> Addr" where
  "Unmap (Addr6 a z) = (if drop_bit 32 a = 0xffff then Addr4 (ucast a) else Addr6 a z)"
| "Unmap ip = ip"

text \<open>
  The library functions on addresses are parameters of the model:
  \<^verbatim>\<open>netutil.SplitHost\<close> (the host of a \<^verbatim>\<open>host:port\<close> string, or the string itself if it
  has no port), \<^verbatim>\<open>netip.ParseAddr\<close> and \<^verbatim>\<open>Addr.String\<close>. Every theorem below holds for
  all of them.
\<close>

record netlib =
  SplitHost :: "string \<Rightarrow> error + string"
  ParseAddr :: "string \<Rightarrow> error + Addr"
  AddrString :: "Addr \<Rightarrow> string"

text \<open>The header names of \<^verbatim>\<open>httphdr\<close>, in canonical form.\<close>

definition CFConnectingIP :: string where
  "CFConnectingIP = ''Cf-Connecting-Ip''"

definition TrueClientIP :: string where
  "TrueClientIP = ''True-Client-Ip''"

definition XRealIP :: string where
  "XRealIP = ''X-Real-Ip''"

definition XForwardedFor :: string where
  "XForwardedFor = ''X-Forwarded-For''"

definition RetryAfter :: string where
  "RetryAfter = ''Retry-After''"

definition CacheControl :: string where
  "CacheControl = ''Cache-Control''"

definition Pragma :: string where
  "Pragma = ''Pragma''"

definition Expires :: string where
  "Expires = ''Expires''"

definition Location :: string where
  "Location = ''Location''"

definition proxyHeaders :: "string list" where
  "proxyHeaders = [CFConnectingIP, TrueClientIP, XRealIP]"

text \<open>The loop of \<open>realIP\<close> over \<open>proxyHeaders\<close>: the first header that parses.\<close>

fun proxyLoop :: "netlib \<Rightarrow> Request \<Rightarrow> string list \<Rightarrow> Addr option" where
  "proxyLoop L r [] = None"
| "proxyLoop L r (h # hs) =
     (case ParseAddr L (HeaderGet r h) of
        Inr ip \<Rightarrow> Some ip
      | Inl _ \<Rightarrow> proxyLoop L r hs)"

text \<open>The first result of \<^verbatim>\<open>strings.Cut(s, ",")\<close>: the text before the first comma.\<close>

definition CutComma :: "string \<Rightarrow> string" where
  "CutComma s = takeWhile (\<lambda>c. c \<noteq> CHR '','') s"

text \<open>
  \<open>realIP\<close> extracts the real IP address of the client from an HTTP request using the
  known HTTP headers. It returns the pair \<^verbatim>\<open>(ip, err)\<close>, with the zero address beside
  an error.
\<close>

definition realIP :: "netlib \<Rightarrow> Request \<Rightarrow> Addr \<times> error option" where
  "realIP L r =
     (case proxyLoop L r proxyHeaders of
        Some ip \<Rightarrow> (ip, None)
      | None \<Rightarrow>
          (case ParseAddr L (CutComma (HeaderGet r XForwardedFor)) of
             Inr ip \<Rightarrow> (ip, None)
           | Inl _ \<Rightarrow>
               (case SplitHost L (RemoteAddr r) of
                  Inl err \<Rightarrow> (AddrZero, Some (Wrapf ''getting ip from client addr'' err))
                | Inr ipStr \<Rightarrow>
                    (case ParseAddr L ipStr of
                       Inl err \<Rightarrow> (AddrZero, Some err)
                     | Inr ip \<Rightarrow> (ip, None)))))"

subsection \<open>The login and logout handlers\<close>

text \<open>
  The global authentication object, as \<open>handleLogin\<close> and \<open>newCookie\<close> use it. Its
  code is in another file, so its parts are parameters: \<open>rateLimiter\<close> is \<open>None\<close> for a
  \<^verbatim>\<open>nil\<close> limiter and else what \<^verbatim>\<open>check\<close> returns for a key at the time of the request, a
  \<^verbatim>\<open>time.Duration\<close> in nanoseconds; \<open>trustedProxies\<close> is \<^verbatim>\<open>trustedProxies.Contains\<close>;
  \<open>findUser\<close> returns the name of the user found, or \<open>None\<close> when \<^verbatim>\<open>ok\<close> is false.
\<close>

record Auth =
  rateLimiter :: "(string \<Rightarrow> int) option"
  trustedProxies :: "Addr \<Rightarrow> bool"
  sessionTTL :: "32 word"
  findUser :: "string \<Rightarrow> string \<Rightarrow> string option"

text \<open>
  What a call takes from its surroundings: the token that \<^verbatim>\<open>newSessionToken()\<close> draws
  and the time \<^verbatim>\<open>time.Now()\<close>. Times are Unix seconds.
\<close>

record env =
  sessionToken :: "byte list"
  now :: int

record session =
  userName :: string
  expire :: "32 word"

datatype SameSite = SameSiteDefaultMode | SameSiteLaxMode | SameSiteStrictMode | SameSiteNoneMode

record Cookie =
  CName :: string
  CValue :: string
  CPath :: string
  CExpires :: int
  CHttpOnly :: bool
  CSameSite :: SameSite

text \<open>\<open>cookieTTL\<close> is the time-to-live of the session cookie: 365 days, in seconds.\<close>

definition cookieTTL :: int where
  "cookieTTL = 365 * 86400"

definition sessionCookieName :: string where
  "sessionCookieName = ''agh_session''"

text \<open>\<^verbatim>\<open>hex.EncodeToString\<close>.\<close>

definition hextable :: string where
  "hextable = ''0123456789abcdef''"

definition EncodeToString :: "byte list \<Rightarrow> string" where
  "EncodeToString src =
     concat (map (\<lambda>v. [hextable ! (unat v div 16), hextable ! (unat v mod 16)]) src)"

text \<open>
  The texts that the handlers format: \<^verbatim>\<open>"json decode: %s"\<close>,
  \<^verbatim>\<open>"auth: getting remote address: %s"\<close>, \<^verbatim>\<open>"auth: blocked for %s"\<close> and \<^verbatim>\<open>"%s"\<close>, each
  with its argument.
\<close>

datatype message =
    JSONDecode error
  | GettingRemoteAddress error
  | BlockedFor int
  | Plain error

text \<open>
  The calls a handler makes to its collaborators and to the log, in order: the rate
  limiter's \<^verbatim>\<open>check\<close>, \<^verbatim>\<open>inc\<close> and \<^verbatim>\<open>remove\<close> with their key, \<^verbatim>\<open>findUser\<close> with the
  credentials, \<^verbatim>\<open>addSession\<close>, the log line of \<^verbatim>\<open>aghhttp.Error\<close>, the log line of
  \<open>writeErrorWithIP\<close> with the address it names, the log line about a failed \<open>realIP\<close>
  (with the remote address), and the line about a successful login (user and address).
\<close>

datatype effect =
    RateCheck string
  | RateInc string
  | RateRemove string
  | FindUser string string
  | AddSession "byte list" session
  | LogError message
  | LogErrorIP string message
  | LogRealIPError string error
  | LogLoggedIn string string

text \<open>
  Two views of the calls of a handler: the calls to the rate limiter, and the lines
  written to the log.
\<close>

fun isRateCall :: "effect \<Rightarrow> bool" where
  "isRateCall (RateCheck k) = True"
| "isRateCall (RateInc k) = True"
| "isRateCall (RateRemove k) = True"
| "isRateCall e = False"

fun isLog :: "effect \<Rightarrow> bool" where
  "isLog (LogError m) = True"
| "isLog (LogErrorIP ip m) = True"
| "isLog (LogRealIPError ip e) = True"
| "isLog (LogLoggedIn u ip) = True"
| "isLog e = False"

datatype body = NoBody | ErrorText message | BodyOK

text \<open>
  The response: the status, the headers that the handler sets itself, the cookie of
  its \<^verbatim>\<open>Set-Cookie\<close> header and the body. The headers that \<^verbatim>\<open>http.Error\<close> adds on its own
  account (content type and sniffing protection) are not part of the model.
\<close>

record Response =
  Status :: nat
  Headers :: "string \<rightharpoonup> string"
  SetCookie :: "Cookie option"
  Body :: body

definition StatusOK :: nat where
  "StatusOK = 200"

definition StatusFound :: nat where
  "StatusFound = 302"

definition StatusBadRequest :: nat where
  "StatusBadRequest = 400"

definition StatusForbidden :: nat where
  "StatusForbidden = 403"

definition StatusTooManyRequests :: nat where
  "StatusTooManyRequests = 429"

text \<open>\<^verbatim>\<open>strconv.Itoa\<close>: the decimal digits of an integer.\<close>

fun digits :: "nat \<Rightarrow> string" where
  "digits n =
     (if n < 10 then [''0123456789'' ! n]
      else digits (n div 10) @ [''0123456789'' ! (n mod 10)])"

declare digits.simps [simp del]

definition Itoa :: "int \<Rightarrow> string" where
  "Itoa i = (if i < 0 then CHR ''-'' # digits (nat (- i)) else digits (nat i))"

text \<open>
  The header value \<^verbatim>\<open>strconv.Itoa(int(left.Seconds()))\<close> goes through a 64-bit
  floating-point number. A finite value of that format is a rational number, and every
  operation returns the exact result rounded to the nearest value of the format, ties
  to the even mantissa. A \<^verbatim>\<open>time.Duration\<close> is a 64-bit count of nanoseconds, so all
  numbers here are below \<open>2 ^ 34\<close> and far from the overflow of the format, which the
  model leaves out.

  \<open>rne\<close> rounds a rational number to the nearest integer, ties to even.
\<close>

definition rne :: "rat \<Rightarrow> int" where
  "rne x =
     (let n = \<lfloor>x\<rfloor>; d = x - of_int n in
      if d < 1 / 2 then n
      else if 1 / 2 < d then n + 1
      else if even n then n else n + 1)"

text \<open>
  The binary exponent of a positive number \<open>x\<close>: the \<open>e\<close> with
  \<open>2 ^ e \<le> x < 2 ^ (e + 1)\<close>, and \<open>- 1022\<close> for the subnormal numbers below.
\<close>

definition expo :: "rat \<Rightarrow> int" where
  "expo x =
     (if 1 \<le> x then bitlen \<lfloor>x\<rfloor> - 1
      else max (- 1022) (- bitlen (\<lceil>1 / x\<rceil> - 1)))"

text \<open>
  \<open>fl64\<close> rounds to the format: the mantissa has 53 bits, so the step between
  neighbouring values at exponent \<open>e\<close> is \<open>2 ^ (e - 52)\<close>.
\<close>

definition fl64 :: "rat \<Rightarrow> rat" where
  "fl64 x =
     (if x = 0 then 0
      else sgn x * of_int (rne (\<bar>x\<bar> / 2 powi (expo \<bar>x\<bar> - 52))) * 2 powi (expo \<bar>x\<bar> - 52))"

text \<open>Go's integer division and remainder, which truncate towards zero.\<close>

definition truncDiv :: "int \<Rightarrow> int \<Rightarrow> int" where
  "truncDiv a b = sgn a * sgn b * (\<bar>a\<bar> div \<bar>b\<bar>)"

definition truncRem :: "int \<Rightarrow> int \<Rightarrow> int" where
  "truncRem a b = a - b * truncDiv a b"

text \<open>
  \<^verbatim>\<open>Duration.Seconds\<close>:
  \<^verbatim>\<open>sec := d / Second; nsec := d % Second; return float64(sec) + float64(nsec)/1e9\<close>.
\<close>

definition Second :: int where
  "Second = 1000000000"

definition Seconds :: "int \<Rightarrow> rat" where
  "Seconds d =
     fl64 (fl64 (of_int (truncDiv d Second))
           + fl64 (fl64 (of_int (truncRem d Second)) / fl64 1000000000))"

text \<open>The conversion \<^verbatim>\<open>int(f)\<close> of a floating-point number discards the fraction.\<close>

definition toInt :: "rat \<Rightarrow> int" where
  "toInt f = (if f < 0 then \<lceil>f\<rceil> else \<lfloor>f\<rfloor>)"

definition intSeconds :: "int \<Rightarrow> int" where
  "intSeconds d = toInt (Seconds d)"

text \<open>
  \<open>newCookie\<close> creates a new authentication cookie. It returns the pair
  \<^verbatim>\<open>(c, err)\<close> and the calls it made.
\<close>

definition newCookie ::
  "Auth \<Rightarrow> env \<Rightarrow> loginJSON \<Rightarrow> string \<Rightarrow> (Cookie option \<times> error option) \<times> effect list" where
  "newCookie a ev req addr =
     (case findUser a (Name req) (Password req) of
        None \<Rightarrow>
          ((None, Some (Error ''invalid username or password'')),
           FindUser (Name req) (Password req)
             # (if rateLimiter a \<noteq> None then [RateInc addr] else []))
      | Some uname \<Rightarrow>
          ((Some \<lparr>CName = sessionCookieName,
                  CValue = EncodeToString (sessionToken ev),
                  CPath = ''/'',
                  CExpires = now ev + cookieTTL,
                  CHttpOnly = True,
                  CSameSite = SameSiteLaxMode\<rparr>,
            None),
           FindUser (Name req) (Password req)
             # (if rateLimiter a \<noteq> None then [RateRemove addr] else [])
             @ [AddSession (sessionToken ev)
                  \<lparr>userName = uname, expire = word_of_int (now ev) + sessionTTL a\<rparr>]))"

text \<open>
  \<open>writeErrorWithIP\<close> is like \<^verbatim>\<open>aghhttp.Error\<close>, but includes the remote IP address when
  it writes to the log. The headers are those set on the response before the call.
\<close>

definition writeErrorWithIP ::
  "(string \<rightharpoonup> string) \<Rightarrow> nat \<Rightarrow> string \<Rightarrow> message \<Rightarrow> Response \<times> effect list" where
  "writeErrorWithIP hdr code remoteIP text =
     (\<lparr>Status = code, Headers = hdr, SetCookie = None, Body = ErrorText text\<rparr>,
      [LogErrorIP remoteIP text])"

text \<open>
  The part of \<open>handleLogin\<close> after the rate limiter has let the request pass: the
  address for the log, the credentials, the answer.
\<close>

definition handleLogin_checked ::
  "netlib \<Rightarrow> Auth \<Rightarrow> env \<Rightarrow> Request \<Rightarrow> loginJSON \<Rightarrow> string \<Rightarrow> Response \<times> effect list" where
  "handleLogin_checked L a ev r req remoteIP =
     (case realIP L r of
        (ip, err) \<Rightarrow>
          (let logged = (case err of None \<Rightarrow> [] | Some e \<Rightarrow> [LogRealIPError remoteIP e])
           in case newCookie a ev req remoteIP of
                ((_, Some e), calls) \<Rightarrow>
                  (let logIP = (if trustedProxies a (Unmap ip) then AddrString L ip
                                else remoteIP)
                   in case writeErrorWithIP Map.empty StatusForbidden logIP (Plain e) of
                        (resp, l) \<Rightarrow> (resp, logged @ calls @ l))
              | ((cookie, None), calls) \<Rightarrow>
                  (\<lparr>Status = StatusOK,
                    Headers = [CacheControl \<mapsto> ''no-store, no-cache, must-revalidate, proxy-revalidate'',
                               Pragma \<mapsto> ''no-cache'',
                               Expires \<mapsto> ''0''],
                    SetCookie = cookie,
                    Body = BodyOK\<rparr>,
                   logged @ calls @ [LogLoggedIn (Name req) (AddrString L ip)])))"

text \<open>\<open>handleLogin\<close> is the handler for the POST /control/login HTTP API.\<close>

definition handleLogin :: "netlib \<Rightarrow> Auth \<Rightarrow> env \<Rightarrow> Request \<Rightarrow> Response \<times> effect list" where
  "handleLogin L a ev r =
     (case jsonBody r of
        Inl err \<Rightarrow>
          (\<lparr>Status = StatusBadRequest, Headers = Map.empty, SetCookie = None,
            Body = ErrorText (JSONDecode err)\<rparr>,
           [LogError (JSONDecode err)])
      | Inr req \<Rightarrow>
          (case SplitHost L (RemoteAddr r) of
             Inl err \<Rightarrow>
               writeErrorWithIP Map.empty StatusBadRequest (RemoteAddr r)
                 (GettingRemoteAddress err)
           | Inr remoteIP \<Rightarrow>
               (case rateLimiter a of
                  None \<Rightarrow> handleLogin_checked L a ev r req remoteIP
                | Some check \<Rightarrow>
                    (let left = check remoteIP in
                     if left > 0 then
                       (case writeErrorWithIP [RetryAfter \<mapsto> Itoa (intSeconds left)]
                               StatusTooManyRequests remoteIP (BlockedFor left) of
                          (resp, l) \<Rightarrow> (resp, RateCheck remoteIP # l))
                     else
                       (case handleLogin_checked L a ev r req remoteIP of
                          (resp, l) \<Rightarrow> (resp, RateCheck remoteIP # l))))))"

text \<open>
  Modelled from the spec: \<^verbatim>\<open>Auth.removeSession\<close> is in another file. The spec's
  \<^verbatim>\<open>Revoke(token)\<close> is an idempotent removal; revoking an unknown or already-revoked
  token is not an error. The sessions are a map from the cookie's value to the session.
\<close>

type_synonym sessions = "string \<rightharpoonup> session"

definition removeSession :: "sessions \<Rightarrow> string \<Rightarrow> sessions" where
  "removeSession ss sess = ss(sess := None)"

text \<open>
  \<open>handleLogout\<close> is the handler for the GET /control/logout HTTP API. It takes the
  sessions and returns them as it leaves them. The expiry \<open>0\<close> of the cookie is
  \<^verbatim>\<open>time.Unix(0, 0)\<close>, the first second of 1970.
\<close>

definition handleLogout :: "sessions \<Rightarrow> Request \<Rightarrow> Response \<times> sessions" where
  "handleLogout ss r =
     (case sessionCookie r of
        None \<Rightarrow>
          (\<lparr>Status = StatusFound, Headers = [Location \<mapsto> ''/login.html''],
            SetCookie = None, Body = NoBody\<rparr>,
           ss)
      | Some v \<Rightarrow>
          (\<lparr>Status = StatusFound, Headers = [Location \<mapsto> ''/login.html''],
            SetCookie = Some \<lparr>CName = sessionCookieName, CValue = '''', CPath = ''/'',
                              CExpires = 0, CHttpOnly = True, CSameSite = SameSiteLaxMode\<rparr>,
            Body = NoBody\<rparr>,
           removeSession ss v))"

subsection \<open>An instance for concrete requests\<close>

text \<open>
  Concrete collaborators, for evaluating the handlers on concrete requests. The library
  functions are instantiated by their IPv4 part: \<open>ex_SplitHost\<close> agrees with
  \<^verbatim>\<open>netutil.SplitHost\<close> on strings without brackets (the host before the last colon; a
  string without a colon is its own host; a colon in the host is an error), \<open>ex_ParseAddr\<close>
  agrees with \<^verbatim>\<open>netip.ParseAddr\<close> on strings without a colon (four decimal fields of at
  most 255 without leading zeros), and \<open>ex_AddrString\<close> prints an IPv4 address in dotted
  decimal and the zero address as \<^verbatim>\<open>invalid IP\<close>.
\<close>

definition ex_SplitHost :: "string \<Rightarrow> error + string" where
  "ex_SplitHost hostport =
     (if CHR '':'' \<notin> set hostport then Inr hostport
      else if CHR ''['' \<in> set hostport \<or> CHR '']'' \<in> set hostport
        then Inl (Error ''bracketed address'')
      else
        (let host = rev (tl (dropWhile (\<lambda>c. c \<noteq> CHR '':'') (rev hostport)))
         in if CHR '':'' \<in> set host then Inl (Error ''too many colons in address'')
            else Inr host))"

fun splitDots :: "string \<Rightarrow> string list" where
  "splitDots [] = [[]]"
| "splitDots (c # s) =
     (if c = CHR ''.'' then [] # splitDots s
      else (case splitDots s of f # fs \<Rightarrow> (c # f) # fs | [] \<Rightarrow> [[c]]))"

definition parseOctet :: "string \<Rightarrow> nat option" where
  "parseOctet f =
     (let v = foldl (\<lambda>v c. v * 10 + (of_char c - 48)) 0 f in
      if f = [] \<or> (\<exists>c \<in> set f. of_char c < (48::nat) \<or> (57::nat) < of_char c) then None
      else if 1 < length f \<and> hd f = CHR ''0'' then None
      else if 255 < v then None
      else Some v)"

definition ex_ParseAddr :: "string \<Rightarrow> error + Addr" where
  "ex_ParseAddr s =
     (case map parseOctet (splitDots s) of
        [Some a, Some b, Some c, Some d] \<Rightarrow>
          Inr (Addr4 (word_of_nat (((a * 256 + b) * 256 + c) * 256 + d)))
      | _ \<Rightarrow> Inl (Error ''unable to parse IP''))"

definition ex_AddrString :: "Addr \<Rightarrow> string" where
  "ex_AddrString ip =
     (case ip of
        AddrZero \<Rightarrow> ''invalid IP''
      | Addr4 w \<Rightarrow>
          Itoa (uint (drop_bit 24 w)) @ ''.'' @ Itoa (uint (drop_bit 16 w) mod 256) @ ''.''
            @ Itoa (uint (drop_bit 8 w) mod 256) @ ''.'' @ Itoa (uint w mod 256)
      | Addr6 w z \<Rightarrow> ''IPv6'')"

definition ex_lib :: netlib where
  "ex_lib = \<lparr>SplitHost = ex_SplitHost, ParseAddr = ex_ParseAddr, AddrString = ex_AddrString\<rparr>"

text \<open>
  An authentication object with one user, \<^verbatim>\<open>admin\<close> with password \<^verbatim>\<open>secret\<close>, the trusted
  proxies \<^verbatim>\<open>10.0.0.0/8\<close>, and a rate limiter that blocks the key \<^verbatim>\<open>198.51.100.9\<close> for
  another 90.5 seconds and no other key.
\<close>

definition ex_auth :: Auth where
  "ex_auth =
     \<lparr>rateLimiter = Some (\<lambda>k. if k = ''198.51.100.9'' then 90500000000 else 0),
      trustedProxies = (\<lambda>ip. case ip of Addr4 w \<Rightarrow> drop_bit 24 w = 10 | _ \<Rightarrow> False),
      sessionTTL = 2592000,
      findUser = (\<lambda>n p. if n = ''admin'' \<and> p = ''secret'' then Some ''admin'' else None)\<rparr>"

definition ex_env :: env where
  "ex_env = \<lparr>sessionToken = [1, 2, 3, 4, 5, 6, 7, 8, 9, 10, 11, 12, 13, 14, 15, 255],
             now = 1700000000\<rparr>"

text \<open>
  A login request of \<^verbatim>\<open>admin\<close> with the right password from \<^verbatim>\<open>203.0.113.7\<close>, with no
  proxy header, no cookie and no Basic credentials; the other requests vary it.
\<close>

definition ex_request :: Request where
  "ex_request =
     \<lparr>jsonBody = Inr \<lparr>Name = ''admin'', Password = ''secret''\<rparr>,
      RemoteAddr = ''203.0.113.7:51234'',
      HeaderGet = (\<lambda>h. ''''),
      sessionCookie = None,
      basicAuth = None\<rparr>"

text \<open>The same request with a wrong password.\<close>

definition ex_request_wrong :: Request where
  "ex_request_wrong = ex_request\<lparr>jsonBody := Inr \<lparr>Name = ''admin'', Password = ''wrong''\<rparr>\<rparr>"

text \<open>
  Requests from the same peer, which is no trusted proxy, with a forged
  \<^verbatim>\<open>X-Real-Ip\<close> header that names an address of the trusted range.
\<close>

definition ex_forged :: Request where
  "ex_forged = ex_request\<lparr>HeaderGet := (\<lambda>h. if h = XRealIP then ''10.0.0.1'' else '''')\<rparr>"

definition ex_forged_wrong :: Request where
  "ex_forged_wrong =
     ex_request_wrong\<lparr>HeaderGet := (\<lambda>h. if h = XRealIP then ''10.0.0.1'' else '''')\<rparr>"

text \<open>The right password from the blocked address.\<close>

definition ex_blocked :: Request where
  "ex_blocked = ex_request\<lparr>RemoteAddr := ''198.51.100.9:40000''\<rparr>"

text \<open>A user directory with the user \<^verbatim>\<open>admin\<close>, an empty one, and no stored session.\<close>

definition ex_admin :: User where
  "ex_admin = \<lparr>Login = ''admin'', Authenticate = (\<lambda>p. p = ''secret'')\<rparr>"

definition ex_mw :: authMiddlewareDefault where
  "ex_mw =
     \<lparr>users_All = ([ex_admin], None),
      users_ByLogin = (\<lambda>l. if l = ''admin'' then (Some ex_admin, None) else (None, None)),
      sessions_FindByToken = (\<lambda>t. (None, None))\<rparr>"

definition ex_mw_empty :: authMiddlewareDefault where
  "ex_mw_empty =
     \<lparr>users_All = ([], None),
      users_ByLogin = (\<lambda>l. (None, None)),
      sessions_FindByToken = (\<lambda>t. (None, None))\<rparr>"

section \<open>Properties of the middleware\<close>

lemma Wrap_no_users: "users_All mw = ([], None) \<Longrightarrow> Wrap mw r = (Served None, [])"
  by (simp add: Wrap_def needsAuthentication_def)

lemma userFromRequest_no_credentials:
  "sessionCookie r = None \<Longrightarrow> basicAuth r = None \<Longrightarrow>
     userFromRequest mw r =
       (None, Some (Wrapf ''getting user from request'' (Wrapf ''credentials'' ErrNoValue)))"
  by (simp add: userFromRequest_def userFromRequest_body_def userFromRequestBasicAuth_def
      Annotate_def)

lemma userFromRequest_bad_basic:
  "sessionCookie r = None \<Longrightarrow> basicAuth r = Some (l, p) \<Longrightarrow>
   (case fst (users_ByLogin mw l) of None \<Rightarrow> True | Some u \<Rightarrow> \<not> Authenticate u p) \<Longrightarrow>
     userFromRequest mw r =
       (None, Some (Wrapf ''getting user from request'' errInvalidLogin))"
  by (cases "fst (users_ByLogin mw l)")
    (simp_all add: userFromRequest_def userFromRequest_body_def userFromRequestBasicAuth_def
      Annotate_def)

lemma InRange_exact: "v \<noteq> l \<Longrightarrow> \<exists>e. InRange name v l l = Some e"
  by (auto simp: InRange_def)

lemma userFromRequest_malformed:
  assumes "sessionCookie r = Some v"
    and "(\<exists>e. DecodeString v = Inl e) \<or>
         (\<exists>sess. DecodeString v = Inr sess \<and> length sess \<noteq> SessionTokenLength)"
  shows "fst (userFromRequest mw r) = None"
  using assms(2)
proof (elim disjE exE conjE)
  fix e
  assume "DecodeString v = Inl e"
  then show ?thesis
    using assms(1) by (simp add: userFromRequest_def userFromRequest_body_def)
next
  fix sess
  assume d: "DecodeString v = Inr sess" and l: "length sess \<noteq> SessionTokenLength"
  obtain e where "InRange ''token length'' (length sess) SessionTokenLength SessionTokenLength = Some e"
    using InRange_exact [OF l] by blast
  then show ?thesis
    using assms(1) d by (simp add: userFromRequest_def userFromRequest_body_def)
qed

lemma Wrap_no_user:
  "fst (userFromRequest mw r) = None \<Longrightarrow>
     fst (Wrap mw r) =
       (case users_All mw of
          (_, Some e) \<Rightarrow> Panicked e
        | (users, None) \<Rightarrow> if users = [] then Served None else Rejected StatusUnauthorized)"
  by (cases "userFromRequest mw r")
    (auto simp: Wrap_def needsAuthentication_def split: prod.splits option.splits)

text \<open>
  C6. If the user directory contains zero users, the wrapped handler of the default
  middleware calls the inner handler for every request, whatever credentials it has.
  If the directory contains at least one user, a request with no session cookie and
  no valid Basic credentials (none at all, an unknown login, or a password that the
  user's \<open>Authenticate\<close> refuses) is answered with status 401 and does not reach the
  inner handler.
\<close>

theorem bootstrap_bypass:
  "(users_All mw = ([], None) \<longrightarrow> Wrap mw r = (Served None, [])) \<and>
   (users_All mw = (us, None) \<and> us \<noteq> [] \<and> sessionCookie r = None \<and>
    (case basicAuth r of
       None \<Rightarrow> True
     | Some (l, p) \<Rightarrow>
         (case fst (users_ByLogin mw l) of None \<Rightarrow> True | Some u \<Rightarrow> \<not> Authenticate u p))
      \<longrightarrow> fst (Wrap mw r) = Rejected 401)"
proof (intro conjI impI)
  assume "users_All mw = ([], None)"
  then show "Wrap mw r = (Served None, [])" by (rule Wrap_no_users)
next
  assume a: "users_All mw = (us, None) \<and> us \<noteq> [] \<and> sessionCookie r = None \<and>
    (case basicAuth r of
       None \<Rightarrow> True
     | Some (l, p) \<Rightarrow>
         (case fst (users_ByLogin mw l) of None \<Rightarrow> True | Some u \<Rightarrow> \<not> Authenticate u p))"
  have "fst (userFromRequest mw r) = None"
  proof (cases "basicAuth r")
    case None
    then show ?thesis using a userFromRequest_no_credentials [of r mw] by simp
  next
    case (Some lp)
    obtain l p where lp: "lp = (l, p)" by (cases lp)
    show ?thesis using a Some lp userFromRequest_bad_basic [of r l p mw] by simp
  qed
  then show "fst (Wrap mw r) = Rejected 401"
    using a by (simp add: Wrap_no_user StatusUnauthorized_def)
qed

theorem bootstrap_bypass_witness:
  "users_All ex_mw_empty = ([], None) \<and>
   Wrap ex_mw_empty ex_request = (Served None, []) \<and>
   users_All ex_mw = ([ex_admin], None) \<and> [ex_admin] \<noteq> [] \<and>
   sessionCookie ex_request = None \<and> basicAuth ex_request = None \<and>
   fst (Wrap ex_mw ex_request) = Rejected 401"
proof -
  have h1: "users_All ex_mw_empty = ([], None)"
    by (simp add: ex_mw_empty_def)
  have h2: "users_All ex_mw = ([ex_admin], None) \<and> [ex_admin] \<noteq> [] \<and>
            sessionCookie ex_request = None \<and> basicAuth ex_request = None"
    by (simp add: ex_mw_def ex_request_def)
  show ?thesis
    using bootstrap_bypass [where mw = ex_mw_empty and r = ex_request and us = "[]"]
      bootstrap_bypass [where mw = ex_mw and r = ex_request and us = "[ex_admin]"] h1 h2
    by simp
qed

text \<open>
  C7. Two failed Basic Auth attempts, one with a login name that the directory does not
  know and one with a known login name and a wrong password, produce the same error
  value, the generic invalid-login message; the wrapped handler answers both in the
  same way, so the answer does not tell whether the login name exists.
\<close>

theorem basic_auth_failure_same_error:
  assumes "basicAuth r1 = Some (l1, p1)"
    and "fst (users_ByLogin mw l1) = None"
    and "basicAuth r2 = Some (l2, p2)"
    and "fst (users_ByLogin mw l2) = Some u"
    and "\<not> Authenticate u p2"
  shows "userFromRequestBasicAuth mw r1 = (None, Some errInvalidLogin) \<and>
         userFromRequestBasicAuth mw r2 = (None, Some errInvalidLogin) \<and>
         errInvalidLogin = Error ''invalid username or password'' \<and>
         (sessionCookie r1 = None \<and> sessionCookie r2 = None \<longrightarrow> Wrap mw r1 = Wrap mw r2)"
proof -
  have e1: "userFromRequestBasicAuth mw r1 = (None, Some errInvalidLogin)"
    using assms(1,2) by (simp add: userFromRequestBasicAuth_def)
  have e2: "userFromRequestBasicAuth mw r2 = (None, Some errInvalidLogin)"
    using assms(3,4,5) by (simp add: userFromRequestBasicAuth_def)
  have w: "Wrap mw r1 = Wrap mw r2" if c: "sessionCookie r1 = None \<and> sessionCookie r2 = None"
  proof -
    have u: "userFromRequest mw r1 = userFromRequest mw r2"
      using c e1 e2 by (simp add: userFromRequest_def userFromRequest_body_def)
    show ?thesis
      unfolding Wrap_def needsAuthentication_def u by (rule refl)
  qed
  show ?thesis
    using e1 e2 w by (simp add: errInvalidLogin_def)
qed

theorem basic_auth_failure_same_error_witness:
  "basicAuth (ex_request\<lparr>basicAuth := Some (''nobody'', ''secret'')\<rparr>) = Some (''nobody'', ''secret'') \<and>
   fst (users_ByLogin ex_mw ''nobody'') = None \<and>
   basicAuth (ex_request\<lparr>basicAuth := Some (''admin'', ''guess'')\<rparr>) = Some (''admin'', ''guess'') \<and>
   fst (users_ByLogin ex_mw ''admin'') = Some ex_admin \<and>
   \<not> Authenticate ex_admin ''guess'' \<and>
   userFromRequestBasicAuth ex_mw (ex_request\<lparr>basicAuth := Some (''nobody'', ''secret'')\<rparr>)
     = (None, Some (Error ''invalid username or password'')) \<and>
   userFromRequestBasicAuth ex_mw (ex_request\<lparr>basicAuth := Some (''admin'', ''guess'')\<rparr>)
     = (None, Some (Error ''invalid username or password'')) \<and>
   Wrap ex_mw (ex_request\<lparr>basicAuth := Some (''nobody'', ''secret'')\<rparr>)
     = Wrap ex_mw (ex_request\<lparr>basicAuth := Some (''admin'', ''guess'')\<rparr>)"
proof -
  have h1: "basicAuth (ex_request\<lparr>basicAuth := Some (''nobody'', ''secret'')\<rparr>)
              = Some (''nobody'', ''secret'')"
    by simp
  have h2: "fst (users_ByLogin ex_mw ''nobody'') = None"
    by (simp add: ex_mw_def)
  have h3: "basicAuth (ex_request\<lparr>basicAuth := Some (''admin'', ''guess'')\<rparr>)
              = Some (''admin'', ''guess'')"
    by simp
  have h4: "fst (users_ByLogin ex_mw ''admin'') = Some ex_admin"
    by (simp add: ex_mw_def)
  have h5: "\<not> Authenticate ex_admin ''guess''"
    by (simp add: ex_admin_def)
  have c: "sessionCookie (ex_request\<lparr>basicAuth := Some (''nobody'', ''secret'')\<rparr>) = None \<and>
           sessionCookie (ex_request\<lparr>basicAuth := Some (''admin'', ''guess'')\<rparr>) = None"
    by (simp add: ex_request_def)
  show ?thesis
    using basic_auth_failure_same_error [OF h1 h2 h3 h4 h5] h1 h2 h3 h4 h5 c
    by (simp add: errInvalidLogin_def)
qed

text \<open>
  C8. A request whose session cookie is malformed (its value is no valid hexadecimal
  string, or decodes to a number of bytes other than \<open>SessionTokenLength\<close>) has the same
  outcome as a request with no credentials at all, whatever the user directory holds;
  if the directory has a user, the outcome of both is the status 401. The error about
  the cookie goes to the log only: the outcome of a rejection carries nothing but the
  status.
\<close>

theorem malformed_cookie_unauthenticated:
  assumes "sessionCookie r = Some v"
    and "(\<exists>e. DecodeString v = Inl e) \<or>
         (\<exists>sess. DecodeString v = Inr sess \<and> length sess \<noteq> SessionTokenLength)"
    and "sessionCookie r0 = None"
    and "basicAuth r0 = None"
  shows "fst (Wrap mw r) = fst (Wrap mw r0) \<and>
         (snd (users_All mw) = None \<and> fst (users_All mw) \<noteq> [] \<longrightarrow>
            fst (Wrap mw r) = Rejected 401 \<and> fst (Wrap mw r0) = Rejected 401)"
proof -
  have m: "fst (userFromRequest mw r) = None"
    using assms(1,2) by (rule userFromRequest_malformed)
  have n: "fst (userFromRequest mw r0) = None"
    using assms(3,4) by (simp add: userFromRequest_no_credentials)
  show ?thesis
    by (cases "users_All mw")
      (auto simp: Wrap_no_user [OF m] Wrap_no_user [OF n] StatusUnauthorized_def)
qed

theorem malformed_cookie_unauthenticated_witness:
  "DecodeString ''zz'' = Inl (InvalidByteError CHR ''z'') \<and>
   DecodeString ''abcd'' = Inr [0xab, 0xcd] \<and> length [0xab, 0xcd :: byte] \<noteq> SessionTokenLength \<and>
   sessionCookie ex_request = None \<and> basicAuth ex_request = None \<and>
   snd (users_All ex_mw) = None \<and> fst (users_All ex_mw) \<noteq> [] \<and>
   fst (Wrap ex_mw (ex_request\<lparr>sessionCookie := Some ''zz''\<rparr>)) = Rejected 401 \<and>
   fst (Wrap ex_mw (ex_request\<lparr>sessionCookie := Some ''abcd''\<rparr>)) = Rejected 401 \<and>
   fst (Wrap ex_mw ex_request) = Rejected 401"
proof -
  have d1: "DecodeString ''zz'' = Inl (InvalidByteError CHR ''z'')"
    by (simp add: reverseHexTable_def)
  have d2: "DecodeString ''abcd'' = Inr [0xab, 0xcd]"
    by (simp add: reverseHexTable_def)
  have l2: "length [0xab, 0xcd :: byte] \<noteq> SessionTokenLength"
    by (simp add: SessionTokenLength_def)
  have r0: "sessionCookie ex_request = None" "basicAuth ex_request = None"
    by (simp_all add: ex_request_def)
  have u: "snd (users_All ex_mw) = None \<and> fst (users_All ex_mw) \<noteq> []"
    by (simp add: ex_mw_def)
  have c1: "sessionCookie (ex_request\<lparr>sessionCookie := Some ''zz''\<rparr>) = Some ''zz''"
    by simp
  have c2: "sessionCookie (ex_request\<lparr>sessionCookie := Some ''abcd''\<rparr>) = Some ''abcd''"
    by simp
  have a1: "(\<exists>e. DecodeString ''zz'' = Inl e) \<or>
         (\<exists>sess. DecodeString ''zz'' = Inr sess \<and> length sess \<noteq> SessionTokenLength)"
    using d1 by simp
  have a2: "(\<exists>e. DecodeString ''abcd'' = Inl e) \<or>
         (\<exists>sess. DecodeString ''abcd'' = Inr sess \<and> length sess \<noteq> SessionTokenLength)"
    using d2 l2 by simp
  show ?thesis
    using malformed_cookie_unauthenticated [OF c1 a1 r0, of ex_mw]
      malformed_cookie_unauthenticated [OF c2 a2 r0, of ex_mw] d1 d2 l2 r0 u
    by simp
qed

section \<open>The seconds of a duration\<close>

text \<open>
  The conversion of a wait to seconds is the integer quotient by \<open>10 ^ 9\<close> for every
  wait of less than \<open>2 ^ 24\<close> seconds (about 194 days), and never more than one second
  above it; at \<open>2 ^ 24\<close> seconds and \<open>999999999\<close> nanoseconds the floating-point sum
  rounds up to the next second.
\<close>

lemma rne_of_int: "rne (of_int n) = n"
  by (simp add: rne_def)

lemma rne_ge: "of_int m \<le> x \<Longrightarrow> m \<le> rne x"
proof -
  assume "of_int m \<le> x"
  then have "m \<le> \<lfloor>x\<rfloor>" by (simp add: le_floor_iff)
  then show ?thesis by (auto simp: rne_def Let_def)
qed

lemma rne_less:
  assumes "x < of_int m - 1 / 2"
  shows "rne x < m"
proof -
  have a: "\<lfloor>x\<rfloor> < m" using assms by (simp add: floor_less_iff)
  show ?thesis
  proof (cases "\<lfloor>x\<rfloor> = m - 1")
    case True
    then have "x - of_int \<lfloor>x\<rfloor> < 1 / 2" using assms by simp
    then show ?thesis using True by (simp add: rne_def Let_def)
  next
    case False
    then have "\<lfloor>x\<rfloor> + 1 < m" using a by simp
    then show ?thesis by (auto simp: rne_def Let_def)
  qed
qed

lemma fl64_pos:
  "0 < x \<Longrightarrow> fl64 x = of_int (rne (x / 2 powi (expo x - 52))) * 2 powi (expo x - 52)"
  by (simp add: fl64_def)

lemma powi_neg: "0 \<le> e \<Longrightarrow> e \<le> 52 \<Longrightarrow> (2::rat) powi (e - 52) = 1 / 2 ^ nat (52 - e)"
  by (simp add: power_int_def field_simps)

lemma expo_int_part:
  assumes "1 \<le> n" and "of_int n \<le> x" and "x < of_int n + 1"
  shows "expo x = bitlen n - 1"
proof -
  have "\<lfloor>x\<rfloor> = n" using assms(2,3) by (simp add: floor_unique)
  moreover have "1 \<le> x"
  proof -
    have "(1::rat) \<le> of_int n" using assms(1) by simp
    then show ?thesis using assms(2) by linarith
  qed
  ultimately show ?thesis by (simp add: expo_def)
qed

lemma bitlen_range:
  assumes "1 \<le> n" and "n < 2 ^ k"
  shows "1 \<le> bitlen n" and "bitlen n \<le> int k"
proof -
  show "1 \<le> bitlen n" using assms(1) by (simp add: bitlen_alt_def)
  show "bitlen n \<le> int k"
    using assms by (simp add: bitlen_le_iff_power)
qed

lemma fl64_of_int:
  assumes "0 \<le> n" and "n < 2 ^ 53"
  shows "fl64 (of_int n) = of_int n"
proof (cases "n = 0")
  case True
  then show ?thesis by (simp add: fl64_def)
next
  case False
  then have n: "1 \<le> n" using assms(1) by simp
  define e where "e = bitlen n - 1"
  define j where "j = nat (52 - e)"
  have e: "0 \<le> e" "e \<le> 52"
    using bitlen_range [OF n assms(2)] by (simp_all add: e_def)
  have x: "expo (of_int n) = e"
    using expo_int_part [OF n, of "of_int n"] by (simp add: e_def)
  have u: "(2::rat) powi (e - 52) = 1 / 2 ^ j"
    using powi_neg [OF e] by (simp add: j_def)
  have "rne (of_int n / (1 / 2 ^ j)) = n * 2 ^ j"
    using rne_of_int [of "n * 2 ^ j"] by simp
  moreover have "0 < (of_int n :: rat)" using n by simp
  ultimately show ?thesis
    by (simp add: fl64_pos x u)
qed

lemma fl64_int_frac:
  assumes "1 \<le> n" and "n < 2 ^ 24" and "0 \<le> q" and "q < 1 - 1 / 2 ^ 30"
  shows "of_int n \<le> fl64 (of_int n + q)" and "fl64 (of_int n + q) < of_int n + 1"
proof -
  define x where "x = of_int n + q"
  define e where "e = bitlen n - 1"
  define j where "j = nat (52 - e)"
  have e: "0 \<le> e" "e \<le> 23"
    using bitlen_range [OF assms(1,2)] by (simp_all add: e_def)
  have j: "29 \<le> j" "int j = 52 - e" using e by (simp_all add: j_def)
  have xr: "of_int n \<le> x" "x < of_int n + 1" using assms(3,4) by (simp_all add: x_def)
  have xe: "expo x = e" using expo_int_part [OF assms(1) xr] by (simp add: e_def)
  have u: "(2::rat) powi (e - 52) = 1 / 2 ^ j"
    using powi_neg [of e] e by (simp add: j_def)
  have "(1::rat) \<le> of_int n" using assms(1) by simp
  then have xpos: "0 < x" using xr(1) by linarith
  have f: "fl64 x = of_int (rne (x * 2 ^ j)) / 2 ^ j"
    using xpos by (simp add: fl64_pos xe u)
  have lo: "n * 2 ^ j \<le> rne (x * 2 ^ j)"
  proof (rule rne_ge)
    have "of_int n * 2 ^ j \<le> x * (2 ^ j :: rat)" using xr(1) by simp
    then show "of_int (n * 2 ^ j) \<le> x * 2 ^ j" by simp
  qed
  have p: "(2::rat) ^ 29 \<le> 2 ^ j" by (rule power_increasing [OF j(1)]) simp
  have hi: "rne (x * 2 ^ j) < (n + 1) * 2 ^ j"
  proof (rule rne_less)
    have lt: "(1 / 2 ^ 30) * (2 ^ j :: rat) < (1 - q) * 2 ^ j"
      using assms(4) by (intro mult_strict_right_mono) simp_all
    have s: "1 / 2 < (1 - q) * (2 ^ j :: rat)"
    proof -
      have "(1 / 2 ^ 30) * (2 ^ 29 :: rat) \<le> (1 / 2 ^ 30) * 2 ^ j"
        using p by (intro mult_left_mono) simp_all
      then have "1 / 2 \<le> (1 / 2 ^ 30) * (2 ^ j :: rat)" by simp
      then show ?thesis
        using lt by linarith
    qed
    have "x * 2 ^ j = (of_int n + 1) * 2 ^ j - (1 - q) * 2 ^ j"
      by (simp add: x_def algebra_simps)
    then have "x * 2 ^ j < (of_int n + 1) * 2 ^ j - 1 / 2" using s by linarith
    then show "x * 2 ^ j < of_int ((n + 1) * 2 ^ j) - 1 / 2" by simp
  qed
  have pos: "(0::rat) < 2 ^ j" by simp
  show "of_int n \<le> fl64 (of_int n + q)"
  proof -
    have "(of_int (n * 2 ^ j) :: rat) \<le> of_int (rne (x * 2 ^ j))" using lo by (simp only: of_int_le_iff)
    then have "(of_int n :: rat) * 2 ^ j \<le> of_int (rne (x * 2 ^ j))" by simp
    then have "(of_int n :: rat) \<le> of_int (rne (x * 2 ^ j)) / 2 ^ j"
      using pos by (simp add: pos_le_divide_eq)
    then show ?thesis using f by (simp add: x_def)
  qed
  show "fl64 (of_int n + q) < of_int n + 1"
  proof -
    have "(of_int (rne (x * 2 ^ j)) :: rat) < of_int ((n + 1) * 2 ^ j)"
      using hi by (simp only: of_int_less_iff)
    then have "(of_int (rne (x * 2 ^ j)) :: rat) < (of_int n + 1) * 2 ^ j" by simp
    then have "(of_int (rne (x * 2 ^ j)) :: rat) / 2 ^ j < of_int n + 1"
      using pos by (simp add: pos_divide_less_eq)
    then show ?thesis using f by (simp add: x_def)
  qed
qed

lemma expo_frac:
  assumes "0 < y" and "y < 1"
  shows "- 1022 \<le> expo y" and "expo y \<le> - 1"
proof -
  have "1 < 1 / y" using assms by simp
  then have "1 < \<lceil>1 / y\<rceil>" by (simp add: less_ceiling_iff)
  then have "1 \<le> bitlen (\<lceil>1 / y\<rceil> - 1)" by (simp add: bitlen_alt_def)
  then show "expo y \<le> - 1" using assms(2) by (simp add: expo_def)
  show "- 1022 \<le> expo y" using assms(2) by (simp add: expo_def)
qed

lemma fl64_frac_less:
  assumes "0 < y" and "y < 1" and "y + 1 / 2 ^ 54 < of_int M / 2 ^ 30"
  shows "0 \<le> fl64 y" and "fl64 y < of_int M / 2 ^ 30"
proof -
  define j where "j = nat (52 - expo y)"
  have j: "53 \<le> j" "- (expo y - 52) = int j" "expo y - 52 < 0"
    using expo_frac [OF assms(1,2)] by (simp_all add: j_def)
  have u: "(2::rat) powi (expo y - 52) = 1 / 2 ^ j"
    using j(2,3) by (simp add: power_int_def field_simps)
  have f: "fl64 y = of_int (rne (y * 2 ^ j)) / 2 ^ j"
    using assms(1) by (simp add: fl64_pos u)
  have pos: "(0::rat) < 2 ^ j" by simp
  have lo: "0 \<le> rne (y * 2 ^ j)"
    by (rule rne_ge) (use assms(1) in simp)
  define k where "k = j - 30"
  have k: "j = 30 + k" using j(1) by (simp add: k_def)
  have split: "(2::rat) ^ j = 2 ^ 30 * 2 ^ k" by (simp add: k(1) power_add)
  have p: "(2::rat) ^ 53 \<le> 2 ^ j" by (rule power_increasing [OF j(1)]) simp
  have hi: "rne (y * 2 ^ j) < M * 2 ^ k"
  proof (rule rne_less)
    have lt: "(1 / 2 ^ 54) * (2 ^ j :: rat) < (of_int M / 2 ^ 30 - y) * 2 ^ j"
      using assms(3) by (intro mult_strict_right_mono) simp_all
    have "(1 / 2 ^ 54) * (2 ^ 53 :: rat) \<le> (1 / 2 ^ 54) * 2 ^ j"
      using p by (intro mult_left_mono) simp_all
    then have "1 / 2 \<le> (1 / 2 ^ 54) * (2 ^ j :: rat)" by simp
    then have s: "1 / 2 < (of_int M / 2 ^ 30 - y) * (2 ^ j :: rat)" using lt by linarith
    have "(of_int M / 2 ^ 30) * (2 ^ j :: rat) = of_int M * 2 ^ k"
      by (simp add: split)
    then have "y * 2 ^ j = of_int M * 2 ^ k - (of_int M / 2 ^ 30 - y) * 2 ^ j"
      by (simp add: algebra_simps)
    then have "y * 2 ^ j < of_int M * 2 ^ k - 1 / 2" using s by linarith
    then show "y * 2 ^ j < of_int (M * 2 ^ k) - 1 / 2" by simp
  qed
  show "0 \<le> fl64 y" using lo by (simp add: f)
  show "fl64 y < of_int M / 2 ^ 30"
  proof -
    have "(of_int (rne (y * 2 ^ j)) :: rat) < of_int (M * 2 ^ k)"
      using hi by (simp only: of_int_less_iff)
    then have "(of_int (rne (y * 2 ^ j)) :: rat) < (of_int M / 2 ^ 30) * 2 ^ j"
      by (simp add: split)
    then have "(of_int (rne (y * 2 ^ j)) :: rat) / 2 ^ j < of_int M / 2 ^ 30"
      using pos by (simp only: pos_divide_less_eq)
    then show ?thesis by (simp only: f)
  qed
qed

lemma fl64_quotient:
  assumes "0 \<le> nsec" and "nsec < 1000000000"
  shows "0 \<le> fl64 (of_int nsec / 1000000000)"
    and "fl64 (of_int nsec / 1000000000) < 1 - 1 / 2 ^ 30"
proof -
  define y :: rat where "y = of_int nsec / 1000000000"
  have both: "0 \<le> fl64 y \<and> fl64 y < 1 - 1 / 2 ^ 30"
  proof (cases "nsec = 0")
    case True
    then show ?thesis by (simp add: y_def fl64_def)
  next
    case False
    then have "1 \<le> nsec" "nsec \<le> 999999999" using assms by simp_all
    then have n: "(1::rat) \<le> of_int nsec" "(of_int nsec :: rat) \<le> 999999999"
      by simp_all
    have y: "0 < y" "y < 1" "y \<le> 999999999 / 1000000000"
      using n by (simp_all add: y_def)
    have "y + 1 / 2 ^ 54 < of_int (2 ^ 30 - 1) / 2 ^ 30"
      using y(3) by simp
    from fl64_frac_less [OF y(1,2) this] show ?thesis by simp
  qed
  show "0 \<le> fl64 (of_int nsec / 1000000000)" using both by (simp add: y_def)
  show "fl64 (of_int nsec / 1000000000) < 1 - 1 / 2 ^ 30" using both by (simp add: y_def)
qed

lemma toInt_floor: "of_int n \<le> f \<Longrightarrow> f < of_int n + 1 \<Longrightarrow> 0 \<le> n \<Longrightarrow> toInt f = n"
proof -
  assume a: "of_int n \<le> f" "f < of_int n + 1" "0 \<le> n"
  have "(0::rat) \<le> of_int n" using a(3) by simp
  then have "\<not> f < 0" using a(1) by linarith
  moreover have "\<lfloor>f\<rfloor> = n" using a(1,2) by (simp add: floor_unique)
  ultimately show ?thesis by (simp add: toInt_def)
qed

lemma intSeconds_exact:
  assumes "0 \<le> d" and "d < 16777216 * 1000000000"
  shows "intSeconds d = d div 1000000000"
proof -
  define sec where "sec = d div 1000000000"
  define nsec where "nsec = d mod 1000000000"
  define q where "q = fl64 (of_int nsec / 1000000000)"
  have sec: "0 \<le> sec" "sec < 2 ^ 24"
    using assms by (simp_all add: sec_def pos_imp_zdiv_nonneg_iff div_less_iff_less_mult)
  have nsec: "0 \<le> nsec" "nsec < 1000000000" by (simp_all add: nsec_def)
  have td: "truncDiv d Second = sec"
    using assms(1) by (cases "d = 0") (simp_all add: truncDiv_def Second_def sec_def)
  have tr: "truncRem d Second = nsec"
    using td by (simp add: truncRem_def Second_def sec_def nsec_def minus_mult_div_eq_mod)
  have fs: "fl64 (of_int sec) = of_int sec"
    using sec by (intro fl64_of_int) simp_all
  have fn: "fl64 (of_int nsec) = of_int nsec"
    using nsec by (intro fl64_of_int) simp_all
  have fc: "fl64 1000000000 = 1000000000"
    using fl64_of_int [of 1000000000] by simp
  have S: "Seconds d = fl64 (of_int sec + q)"
    by (simp add: Seconds_def td tr fs fn fc q_def)
  have q: "0 \<le> q" "q < 1 - 1 / 2 ^ 30"
    using fl64_quotient [OF nsec] by (simp_all add: q_def)
  have "of_int sec \<le> fl64 (of_int sec + q) \<and> fl64 (of_int sec + q) < of_int sec + 1"
  proof (cases "sec = 0")
    case True
    show ?thesis
    proof (cases "q = 0")
      case True
      then show ?thesis using \<open>sec = 0\<close> by (simp add: fl64_def)
    next
      case False
      then have q0: "0 < q" using q(1) by simp
      have q1: "q < 1" using q(2) by simp
      have "q + 1 / 2 ^ 54 < of_int (2 ^ 30) / 2 ^ 30" using q(2) by simp
      from fl64_frac_less [OF q0 q1 this] show ?thesis using \<open>sec = 0\<close> by simp
    qed
  next
    case False
    then have "1 \<le> sec" using sec(1) by simp
    from fl64_int_frac [OF this sec(2) q] show ?thesis by simp
  qed
  then have "toInt (fl64 (of_int sec + q)) = sec"
    using sec(1) by (intro toInt_floor) simp_all
  then show ?thesis by (simp add: intSeconds_def S sec_def)
qed

lemma rne_le: "x \<le> of_int m \<Longrightarrow> rne x \<le> m"
proof -
  assume a: "x \<le> of_int m"
  then have f: "\<lfloor>x\<rfloor> \<le> m" by (simp add: floor_le_iff)
  show ?thesis
  proof (cases "\<lfloor>x\<rfloor> = m")
    case True
    then have "x = of_int m" using a by (metis of_int_floor_le order_antisym)
    then show ?thesis by (simp add: rne_of_int)
  next
    case False
    then have "\<lfloor>x\<rfloor> + 1 \<le> m" using f by simp
    then show ?thesis by (auto simp: rne_def Let_def)
  qed
qed

lemma fl64_int_frac_near:
  assumes "1 \<le> n" and "n < 2 ^ 53" and "0 \<le> q" and "q < 1"
  shows "of_int n \<le> fl64 (of_int n + q)" and "fl64 (of_int n + q) \<le> of_int n + 1"
proof -
  define x where "x = of_int n + q"
  define e where "e = bitlen n - 1"
  define j where "j = nat (52 - e)"
  have e: "0 \<le> e" "e \<le> 52"
    using bitlen_range [OF assms(1,2)] by (simp_all add: e_def)
  have xr: "of_int n \<le> x" "x < of_int n + 1" using assms(3,4) by (simp_all add: x_def)
  have xe: "expo x = e" using expo_int_part [OF assms(1) xr] by (simp add: e_def)
  have u: "(2::rat) powi (e - 52) = 1 / 2 ^ j"
    using powi_neg [OF e] by (simp add: j_def)
  have "(1::rat) \<le> of_int n" using assms(1) by simp
  then have xpos: "0 < x" using xr(1) by linarith
  have f: "fl64 x = of_int (rne (x * 2 ^ j)) / 2 ^ j"
    using xpos by (simp add: fl64_pos xe u)
  have pos: "(0::rat) < 2 ^ j" by simp
  have lo: "n * 2 ^ j \<le> rne (x * 2 ^ j)"
  proof (rule rne_ge)
    have "of_int n * 2 ^ j \<le> x * (2 ^ j :: rat)" using xr(1) by simp
    then show "of_int (n * 2 ^ j) \<le> x * 2 ^ j" by simp
  qed
  have hi: "rne (x * 2 ^ j) \<le> (n + 1) * 2 ^ j"
  proof (rule rne_le)
    have "x * (2 ^ j :: rat) \<le> (of_int n + 1) * 2 ^ j" using xr(2) by simp
    then show "x * 2 ^ j \<le> of_int ((n + 1) * 2 ^ j)" by simp
  qed
  show "of_int n \<le> fl64 (of_int n + q)"
  proof -
    have "(of_int (n * 2 ^ j) :: rat) \<le> of_int (rne (x * 2 ^ j))" using lo by (simp only: of_int_le_iff)
    then have "(of_int n :: rat) * 2 ^ j \<le> of_int (rne (x * 2 ^ j))" by simp
    then have "(of_int n :: rat) \<le> of_int (rne (x * 2 ^ j)) / 2 ^ j"
      using pos by (simp add: pos_le_divide_eq)
    then show ?thesis using f by (simp add: x_def)
  qed
  show "fl64 (of_int n + q) \<le> of_int n + 1"
  proof -
    have "(of_int (rne (x * 2 ^ j)) :: rat) \<le> of_int ((n + 1) * 2 ^ j)"
      using hi by (simp only: of_int_le_iff)
    then have "(of_int (rne (x * 2 ^ j)) :: rat) \<le> (of_int n + 1) * 2 ^ j" by simp
    then have "(of_int (rne (x * 2 ^ j)) :: rat) / 2 ^ j \<le> of_int n + 1"
      using pos by (simp add: pos_divide_le_eq)
    then show ?thesis using f by (simp add: x_def)
  qed
qed

lemma toInt_near:
  assumes "of_int n \<le> f" and "f \<le> of_int n + 1" and "0 \<le> n"
  shows "n \<le> toInt f" and "toInt f \<le> n + 1"
proof -
  have "(0::rat) \<le> of_int n" using assms(3) by simp
  then have nn: "\<not> f < 0" using assms(1) by linarith
  have "n \<le> \<lfloor>f\<rfloor>" using assms(1) by (simp add: le_floor_iff)
  then show "n \<le> toInt f" using nn by (simp add: toInt_def)
  have "f \<le> of_int (n + 1)" using assms(2) by simp
  then have "\<lfloor>f\<rfloor> \<le> n + 1" by (metis floor_mono floor_of_int)
  then show "toInt f \<le> n + 1" using nn by (simp add: toInt_def)
qed

lemma intSeconds_near:
  assumes "0 \<le> d" and "d < 2 ^ 63"
  shows "d div 1000000000 \<le> intSeconds d" and "intSeconds d \<le> d div 1000000000 + 1"
proof -
  define sec where "sec = d div 1000000000"
  define nsec where "nsec = d mod 1000000000"
  define q where "q = fl64 (of_int nsec / 1000000000)"
  have sec: "0 \<le> sec" "sec < 2 ^ 53"
  proof -
    show "0 \<le> sec" using assms(1) by (simp add: sec_def pos_imp_zdiv_nonneg_iff)
    have "d div 1000000000 < 2 ^ 53"
      using assms(2) by (simp add: div_less_iff_less_mult)
    then show "sec < 2 ^ 53" by (simp add: sec_def)
  qed
  have nsec: "0 \<le> nsec" "nsec < 1000000000" by (simp_all add: nsec_def)
  have td: "truncDiv d Second = sec"
    using assms(1) by (cases "d = 0") (simp_all add: truncDiv_def Second_def sec_def)
  have tr: "truncRem d Second = nsec"
    using td by (simp add: truncRem_def Second_def sec_def nsec_def minus_mult_div_eq_mod)
  have fs: "fl64 (of_int sec) = of_int sec"
    using sec by (intro fl64_of_int) simp_all
  have fn: "fl64 (of_int nsec) = of_int nsec"
    using nsec by (intro fl64_of_int) simp_all
  have fc: "fl64 1000000000 = 1000000000"
    using fl64_of_int [of 1000000000] by simp
  have S: "Seconds d = fl64 (of_int sec + q)"
    by (simp add: Seconds_def td tr fs fn fc q_def)
  have q: "0 \<le> q" "q < 1 - 1 / 2 ^ 30"
    using fl64_quotient [OF nsec] by (simp_all add: q_def)
  have q1: "q < 1" using q(2) by simp
  have b: "of_int sec \<le> fl64 (of_int sec + q) \<and> fl64 (of_int sec + q) \<le> of_int sec + 1"
  proof (cases "sec = 0")
    case True
    show ?thesis
    proof (cases "q = 0")
      case True
      then show ?thesis using \<open>sec = 0\<close> by (simp add: fl64_def)
    next
      case False
      then have q0: "0 < q" using q(1) by simp
      have "q + 1 / 2 ^ 54 < of_int (2 ^ 30) / 2 ^ 30" using q(2) by simp
      from fl64_frac_less [OF q0 q1 this] show ?thesis using \<open>sec = 0\<close> by simp
    qed
  next
    case False
    then have "1 \<le> sec" using sec(1) by simp
    from fl64_int_frac_near [OF this sec(2) q(1) q1] show ?thesis by simp
  qed
  show "d div 1000000000 \<le> intSeconds d"
    using toInt_near(1) [of sec "fl64 (of_int sec + q)"] b sec(1)
    by (simp add: intSeconds_def S sec_def)
  show "intSeconds d \<le> d div 1000000000 + 1"
    using toInt_near(2) [of sec "fl64 (of_int sec + q)"] b sec(1)
    by (simp add: intSeconds_def S sec_def)
qed

lemma expo_binade:
  assumes "1 / 2 ^ 1022 \<le> x"
  shows "2 powi expo x \<le> x" and "x < 2 powi (expo x + 1)"
proof -
  have xpos: "0 < x"
  proof -
    have "(0::rat) < 1 / 2 ^ 1022" by simp
    then show ?thesis using assms by linarith
  qed
  have both: "2 powi expo x \<le> x \<and> x < 2 powi (expo x + 1)"
  proof (cases "1 \<le> x")
    case True
    define n where "n = \<lfloor>x\<rfloor>"
    have n: "1 \<le> n" using True by (simp add: n_def le_floor_iff)
    have e: "expo x = bitlen n - 1" using True by (simp add: expo_def n_def)
    have b: "2 ^ nat (bitlen n - 1) \<le> n" "n < 2 ^ nat (bitlen n)"
      using bitlen_bounds [of n] n by simp_all
    have bl: "1 \<le> bitlen n" using n by (simp add: bitlen_alt_def)
    have "(2::rat) ^ nat (bitlen n - 1) \<le> of_int n"
      using b(1) by (metis of_int_le_iff of_int_numeral of_int_power)
    moreover have "of_int n \<le> x" by (simp add: n_def)
    ultimately have lo: "(2::rat) ^ nat (bitlen n - 1) \<le> x" by linarith
    have "n + 1 \<le> 2 ^ nat (bitlen n)" using b(2) by simp
    then have "(of_int (n + 1) :: rat) \<le> of_int (2 ^ nat (bitlen n))"
      by (simp only: of_int_le_iff)
    then have "(of_int n :: rat) + 1 \<le> 2 ^ nat (bitlen n)" by simp
    moreover have "x < of_int n + 1" using floor_correct [of x] by (simp add: n_def)
    ultimately have hi: "x < (2::rat) ^ nat (bitlen n)" by linarith
    show ?thesis using lo hi bl by (simp add: e power_int_def)
  next
    case False
    then have x1: "x < 1" by simp
    define c where "c = \<lceil>1 / x\<rceil>"
    define k where "k = bitlen (c - 1)"
    have r: "1 < 1 / x" using xpos x1 by simp
    have c: "2 \<le> c" using r by (simp add: c_def less_ceiling_iff) 
    have b: "2 ^ nat (k - 1) \<le> c - 1" "c - 1 < 2 ^ nat k"
      using bitlen_bounds [of "c - 1"] c by (simp_all add: k_def)
    have k1: "1 \<le> k" using c by (simp add: k_def bitlen_alt_def)
    have cu: "1 / x \<le> of_int c" by (simp add: c_def)
    have cl: "of_int (c - 1) < 1 / x"
      using ceiling_correct [of "1 / x"] by (simp add: c_def)
    have big: "1 / x \<le> 2 ^ 1022" using assms xpos by (simp add: field_simps)
    have "c \<le> 2 ^ 1022"
    proof -
      have "\<lceil>1 / x\<rceil> \<le> \<lceil>(2 ^ 1022 :: rat)\<rceil>" using big by (rule ceiling_mono)
      moreover have "\<lceil>(2 ^ 1022 :: rat)\<rceil> = 2 ^ 1022"
        by (metis ceiling_of_int of_int_numeral of_int_power)
      ultimately show ?thesis by (simp add: c_def)
    qed
    then have "c - 1 < 2 ^ nat 1022" by simp
    then have k2: "k \<le> 1022" unfolding k_def by (simp add: bitlen_le_iff_power)
    have e: "expo x = - k" using x1 k2 by (simp add: expo_def c_def k_def)
    have "c \<le> 2 ^ nat k" using b(2) by simp
    then have "(of_int c :: rat) \<le> of_int (2 ^ nat k)" by (simp only: of_int_le_iff)
    then have "(of_int c :: rat) \<le> 2 ^ nat k" by simp
    then have "1 / x \<le> 2 ^ nat k" using cu by linarith
    then have lo: "1 / 2 ^ nat k \<le> x" using xpos by (simp add: field_simps)
    have "(of_int (2 ^ nat (k - 1)) :: rat) \<le> of_int (c - 1)"
      using b(1) by (simp only: of_int_le_iff)
    then have "(2::rat) ^ nat (k - 1) \<le> of_int (c - 1)" by simp
    then have "(2::rat) ^ nat (k - 1) < 1 / x" using cl by linarith
    then have hi: "x < 1 / 2 ^ nat (k - 1)" using xpos by (simp add: field_simps)
    have p1: "(2::rat) powi (- k) = 1 / 2 ^ nat k"
      using k1 by (simp add: power_int_def field_simps)
    have p2: "(2::rat) powi (1 - k) = 1 / 2 ^ nat (k - 1)"
    proof (cases "k = 1")
      case True
      then show ?thesis by simp
    next
      case False
      then have "1 - k < 0" "nat (- (1 - k)) = nat (k - 1)" using k1 by simp_all
      then show ?thesis by (simp add: power_int_def field_simps)
    qed
    show ?thesis using lo hi by (simp add: e p1 p2)
  qed
  show "2 powi expo x \<le> x" using both by simp
  show "x < 2 powi (expo x + 1)" using both by simp
qed

lemma intSeconds_rounds_up: "intSeconds 16777216999999999 = 16777217"
  by code_simp

section \<open>Properties of the login and logout handlers\<close>

subsection \<open>The branches of \<open>handleLogin\<close>\<close>

lemma handleLogin_bad_body:
  "jsonBody r = Inl e \<Longrightarrow>
     handleLogin L a ev r =
       (\<lparr>Status = StatusBadRequest, Headers = Map.empty, SetCookie = None,
         Body = ErrorText (JSONDecode e)\<rparr>,
        [LogError (JSONDecode e)])"
  by (simp add: handleLogin_def)

lemma handleLogin_bad_addr:
  "jsonBody r = Inr req \<Longrightarrow> SplitHost L (RemoteAddr r) = Inl e \<Longrightarrow>
     handleLogin L a ev r =
       (\<lparr>Status = StatusBadRequest, Headers = Map.empty, SetCookie = None,
         Body = ErrorText (GettingRemoteAddress e)\<rparr>,
        [LogErrorIP (RemoteAddr r) (GettingRemoteAddress e)])"
  by (simp add: handleLogin_def writeErrorWithIP_def)

lemma handleLogin_blocked:
  "jsonBody r = Inr req \<Longrightarrow> SplitHost L (RemoteAddr r) = Inr host \<Longrightarrow>
   rateLimiter a = Some check \<Longrightarrow> 0 < check host \<Longrightarrow>
     handleLogin L a ev r =
       (\<lparr>Status = StatusTooManyRequests,
         Headers = [RetryAfter \<mapsto> Itoa (intSeconds (check host))],
         SetCookie = None,
         Body = ErrorText (BlockedFor (check host))\<rparr>,
        [RateCheck host, LogErrorIP host (BlockedFor (check host))])"
  by (simp add: handleLogin_def writeErrorWithIP_def Let_def)

lemma handleLogin_passed:
  "jsonBody r = Inr req \<Longrightarrow> SplitHost L (RemoteAddr r) = Inr host \<Longrightarrow>
   (case rateLimiter a of None \<Rightarrow> True | Some check \<Rightarrow> \<not> 0 < check host) \<Longrightarrow>
     handleLogin L a ev r =
       (fst (handleLogin_checked L a ev r req host),
        (case rateLimiter a of None \<Rightarrow> [] | Some check \<Rightarrow> [RateCheck host])
          @ snd (handleLogin_checked L a ev r req host))"
  by (cases "rateLimiter a") (simp_all add: handleLogin_def Let_def split: prod.splits)

lemma handleLogin_checked_invalid:
  "findUser a (Name req) (Password req) = None \<Longrightarrow>
     handleLogin_checked L a ev r req host =
       (\<lparr>Status = StatusForbidden, Headers = Map.empty, SetCookie = None,
         Body = ErrorText (Plain (Error ''invalid username or password''))\<rparr>,
        (case snd (realIP L r) of None \<Rightarrow> [] | Some e \<Rightarrow> [LogRealIPError host e])
          @ FindUser (Name req) (Password req)
          # (if rateLimiter a \<noteq> None then [RateInc host] else [])
          @ [LogErrorIP
               (if trustedProxies a (Unmap (fst (realIP L r))) then AddrString L (fst (realIP L r))
                else host)
               (Plain (Error ''invalid username or password''))])"
  by (cases "realIP L r")
    (simp add: handleLogin_checked_def newCookie_def writeErrorWithIP_def Let_def)

lemma handleLogin_checked_valid:
  "findUser a (Name req) (Password req) = Some u \<Longrightarrow>
     handleLogin_checked L a ev r req host =
       (\<lparr>Status = StatusOK,
         Headers = [CacheControl \<mapsto> ''no-store, no-cache, must-revalidate, proxy-revalidate'',
                    Pragma \<mapsto> ''no-cache'',
                    Expires \<mapsto> ''0''],
         SetCookie = Some \<lparr>CName = sessionCookieName,
                           CValue = EncodeToString (sessionToken ev),
                           CPath = ''/'',
                           CExpires = now ev + cookieTTL,
                           CHttpOnly = True,
                           CSameSite = SameSiteLaxMode\<rparr>,
         Body = BodyOK\<rparr>,
        (case snd (realIP L r) of None \<Rightarrow> [] | Some e \<Rightarrow> [LogRealIPError host e])
          @ FindUser (Name req) (Password req)
          # (if rateLimiter a \<noteq> None then [RateRemove host] else [])
          @ [AddSession (sessionToken ev)
               \<lparr>userName = u, expire = word_of_int (now ev) + sessionTTL a\<rparr>,
             LogLoggedIn (Name req) (AddrString L (fst (realIP L r)))])"
  by (cases "realIP L r")
    (simp add: handleLogin_checked_def newCookie_def Let_def)

lemma realIP_log_only: "filter (\<lambda>e. \<not> isLog e)
    (case x of None \<Rightarrow> [] | Some e \<Rightarrow> [LogRealIPError host e]) = []"
  by (cases x) simp_all

lemma handleLogin_checked_headers:
  "fst (handleLogin_checked L a ev (r\<lparr>HeaderGet := h\<rparr>) req host)
     = fst (handleLogin_checked L a ev r req host) \<and>
   filter (\<lambda>e. \<not> isLog e) (snd (handleLogin_checked L a ev (r\<lparr>HeaderGet := h\<rparr>) req host))
     = filter (\<lambda>e. \<not> isLog e) (snd (handleLogin_checked L a ev r req host))"
  by (cases "findUser a (Name req) (Password req)")
    (simp_all add: handleLogin_checked_invalid handleLogin_checked_valid realIP_log_only)

lemma handleLogin_headers:
  "fst (handleLogin L a ev (r\<lparr>HeaderGet := h\<rparr>)) = fst (handleLogin L a ev r) \<and>
   filter (\<lambda>e. \<not> isLog e) (snd (handleLogin L a ev (r\<lparr>HeaderGet := h\<rparr>)))
     = filter (\<lambda>e. \<not> isLog e) (snd (handleLogin L a ev r))"
proof (cases "jsonBody r")
  case (Inl e)
  have "jsonBody (r\<lparr>HeaderGet := h\<rparr>) = Inl e" using Inl by simp
  then show ?thesis
    using Inl handleLogin_bad_body [where r = r and e = e]
      handleLogin_bad_body [where r = "r\<lparr>HeaderGet := h\<rparr>" and e = e]
    by simp
next
  case (Inr req)
  note req = Inr
  have req': "jsonBody (r\<lparr>HeaderGet := h\<rparr>) = Inr req" using req by simp
  show ?thesis
  proof (cases "SplitHost L (RemoteAddr r)")
    case (Inl e)
    have "SplitHost L (RemoteAddr (r\<lparr>HeaderGet := h\<rparr>)) = Inl e" using Inl by simp
    then show ?thesis
      using handleLogin_bad_addr [OF req Inl] handleLogin_bad_addr [OF req']
      by simp
  next
    case (Inr host)
    have host': "SplitHost L (RemoteAddr (r\<lparr>HeaderGet := h\<rparr>)) = Inr host" using Inr by simp
    show ?thesis
    proof (cases "case rateLimiter a of None \<Rightarrow> True | Some check \<Rightarrow> \<not> 0 < check host")
      case True
      show ?thesis
        using handleLogin_passed [OF req Inr True] handleLogin_passed [OF req' host' True]
          handleLogin_checked_headers [where L = L and a = a and ev = ev and r = r and h = h and req = req and host = host]
        by simp
    next
      case False
      then obtain check where c: "rateLimiter a = Some check" "0 < check host"
        by (cases "rateLimiter a") auto
      show ?thesis
        using handleLogin_blocked [OF req Inr c] handleLogin_blocked [OF req' host' c]
        by simp
    qed
  qed
qed

lemma filter_rate_realIP_log:
  "filter isRateCall (case x of None \<Rightarrow> [] | Some e \<Rightarrow> [LogRealIPError host e]) = []"
  by (cases x) simp_all

subsection \<open>The concrete requests\<close>

lemma ex_lib_sel:
  "SplitHost ex_lib = ex_SplitHost"
  "ParseAddr ex_lib = ex_ParseAddr"
  "AddrString ex_lib = ex_AddrString"
  by (simp_all add: ex_lib_def)

lemma ex_env_sel:
  "sessionToken ex_env = [1, 2, 3, 4, 5, 6, 7, 8, 9, 10, 11, 12, 13, 14, 15, 255]"
  "now ex_env = 1700000000"
  by (simp_all add: ex_env_def)

lemma ex_auth_sel:
  "rateLimiter ex_auth = Some (\<lambda>k. if k = ''198.51.100.9'' then 90500000000 else 0)"
  "sessionTTL ex_auth = 2592000"
  "findUser ex_auth ''admin'' ''secret'' = Some ''admin''"
  "findUser ex_auth ''admin'' ''wrong'' = None"
  by (simp_all add: ex_auth_def)

lemma ex_parse_peer: "ex_ParseAddr ''203.0.113.7'' = Inr (Addr4 0xCB007107)"
  by (simp add: ex_ParseAddr_def parseOctet_def)

lemma ex_parse_forged: "ex_ParseAddr ''10.0.0.1'' = Inr (Addr4 0x0A000001)"
  by (simp add: ex_ParseAddr_def parseOctet_def)

lemma ex_parse_empty: "ex_ParseAddr '''' = Inl (Error ''unable to parse IP'')"
  by (simp add: ex_ParseAddr_def parseOctet_def)

lemma ex_split_peer: "ex_SplitHost ''203.0.113.7:51234'' = Inr ''203.0.113.7''"
  by (simp add: ex_SplitHost_def)

lemma ex_split_blocked: "ex_SplitHost ''198.51.100.9:40000'' = Inr ''198.51.100.9''"
  by (simp add: ex_SplitHost_def)

lemma ex_split_bad: "ex_SplitHost ''1:2:3'' = Inl (Error ''too many colons in address'')"
  by (simp add: ex_SplitHost_def)

lemma ex_string_forged: "ex_AddrString (Addr4 0x0A000001) = ''10.0.0.1''"
  by (simp add: ex_AddrString_def Itoa_def digits.simps drop_bit_eq_div)

lemma ex_trusted_forged: "trustedProxies ex_auth (Addr4 0x0A000001)"
  by (simp add: ex_auth_def drop_bit_eq_div)

lemma ex_untrusted_peer: "\<not> trustedProxies ex_auth (Addr4 0xCB007107)"
  by (simp add: ex_auth_def drop_bit_eq_div)

lemma ex_realIP_forged: "realIP ex_lib ex_forged = (Addr4 0x0A000001, None)"
  by (simp add: realIP_def ex_forged_def ex_request_def ex_lib_sel proxyHeaders_def
      CFConnectingIP_def TrueClientIP_def XRealIP_def ex_parse_forged ex_parse_empty)

lemma ex_realIP_forged_wrong: "realIP ex_lib ex_forged_wrong = (Addr4 0x0A000001, None)"
  by (simp add: realIP_def ex_forged_wrong_def ex_request_wrong_def ex_request_def ex_lib_sel
      proxyHeaders_def CFConnectingIP_def TrueClientIP_def XRealIP_def ex_parse_forged
      ex_parse_empty)

lemma ex_limiter:
  "rateLimiter ex_auth = Some (\<lambda>k. if k = ''198.51.100.9'' then 90500000000 else 0)"
  by (simp add: ex_auth_def)

lemma ex_passed:
  "(case rateLimiter ex_auth of None \<Rightarrow> True | Some check \<Rightarrow> \<not> 0 < check ''203.0.113.7'')"
  by (simp add: ex_auth_def)

lemma ex_forged_wrong_fields:
  "jsonBody ex_forged_wrong = Inr \<lparr>Name = ''admin'', Password = ''wrong''\<rparr>"
  "SplitHost ex_lib (RemoteAddr ex_forged_wrong) = Inr ''203.0.113.7''"
  by (simp_all add: ex_forged_wrong_def ex_request_wrong_def ex_request_def ex_lib_sel
      ex_split_peer)

lemma ex_forged_fields:
  "jsonBody ex_forged = Inr \<lparr>Name = ''admin'', Password = ''secret''\<rparr>"
  "SplitHost ex_lib (RemoteAddr ex_forged) = Inr ''203.0.113.7''"
  by (simp_all add: ex_forged_def ex_request_def ex_lib_sel ex_split_peer)

lemma ex_request_fields:
  "jsonBody ex_request = Inr \<lparr>Name = ''admin'', Password = ''secret''\<rparr>"
  "SplitHost ex_lib (RemoteAddr ex_request) = Inr ''203.0.113.7''"
  by (simp_all add: ex_request_def ex_lib_sel ex_split_peer)

lemma ex_request_wrong_fields:
  "jsonBody ex_request_wrong = Inr \<lparr>Name = ''admin'', Password = ''wrong''\<rparr>"
  "SplitHost ex_lib (RemoteAddr ex_request_wrong) = Inr ''203.0.113.7''"
  by (simp_all add: ex_request_wrong_def ex_request_def ex_lib_sel ex_split_peer)

lemma ex_blocked_fields:
  "jsonBody ex_blocked = Inr \<lparr>Name = ''admin'', Password = ''secret''\<rparr>"
  "SplitHost ex_lib (RemoteAddr ex_blocked) = Inr ''198.51.100.9''"
  by (simp_all add: ex_blocked_def ex_request_def ex_lib_sel ex_split_blocked)

lemma ex_findUser:
  "findUser ex_auth ''admin'' ''secret'' = Some ''admin''"
  "findUser ex_auth ''admin'' ''wrong'' = None"
  by (simp_all add: ex_auth_def)

lemma ex_wait_seconds: "intSeconds 90500000000 = 90"
  using intSeconds_exact [of 90500000000] by simp

lemma ex_handleLogin_forged_wrong:
  "handleLogin ex_lib ex_auth ex_env ex_forged_wrong =
     (\<lparr>Status = 403, Headers = Map.empty, SetCookie = None,
       Body = ErrorText (Plain (Error ''invalid username or password''))\<rparr>,
      [RateCheck ''203.0.113.7'', FindUser ''admin'' ''wrong'', RateInc ''203.0.113.7'',
       LogErrorIP ''10.0.0.1'' (Plain (Error ''invalid username or password''))])"
  using handleLogin_passed [OF ex_forged_wrong_fields ex_passed, of ex_env]
    handleLogin_checked_invalid [where a = ex_auth and L = ex_lib and ev = ex_env
      and r = ex_forged_wrong and host = "''203.0.113.7''"
      and req = "\<lparr>Name = ''admin'', Password = ''wrong''\<rparr>"]
  by (simp add: ex_findUser ex_realIP_forged_wrong ex_trusted_forged ex_limiter
      StatusForbidden_def ex_lib_sel ex_string_forged)

lemma ex_handleLogin_forged:
  "snd (handleLogin ex_lib ex_auth ex_env ex_forged) =
     [RateCheck ''203.0.113.7'', FindUser ''admin'' ''secret'', RateRemove ''203.0.113.7'',
      AddSession [1, 2, 3, 4, 5, 6, 7, 8, 9, 10, 11, 12, 13, 14, 15, 255]
        \<lparr>userName = ''admin'', expire = 1702592000\<rparr>,
      LogLoggedIn ''admin'' ''10.0.0.1'']"
  using handleLogin_passed [OF ex_forged_fields ex_passed, of ex_env]
    handleLogin_checked_valid [where a = ex_auth and L = ex_lib and ev = ex_env
      and r = ex_forged and host = "''203.0.113.7''" and u = "''admin''"
      and req = "\<lparr>Name = ''admin'', Password = ''secret''\<rparr>"]
  by (simp add: ex_findUser ex_realIP_forged ex_limiter ex_lib_sel ex_string_forged
      ex_env_sel ex_auth_sel)

subsection \<open>Client addresses and the rate limiter\<close>

text \<open>
  C1. The claim: the proxy headers are consulted if and only if the peer is a trusted
  proxy, and for a peer that is not trusted the address of a header is never used for
  rate limiting or audit logging; the peer address is used instead. The rate limiter
  keeps to it (C2). The log line of a failed login does not: \<open>handleLogin\<close> replaces
  the peer address by the result of \<open>realIP\<close> when \<^verbatim>\<open>trustedProxies.Contains\<close> holds of
  that result, the address taken from the header, and not when it holds of the peer.
  The theorem evaluates the handler on a failed login from the peer \<^verbatim>\<open>203.0.113.7\<close>,
  which is no trusted proxy, with the forged header \<^verbatim>\<open>X-Real-Ip: 10.0.0.1\<close>, an
  address of the trusted range: the rate limiter is keyed by the peer, and the log
  line names \<^verbatim>\<open>10.0.0.1\<close>.
\<close>

theorem forged_header_in_failure_log:
  "SplitHost ex_lib (RemoteAddr ex_forged_wrong) = Inr ''203.0.113.7'' \<and>
   ParseAddr ex_lib ''203.0.113.7'' = Inr (Addr4 0xCB007107) \<and>
   \<not> trustedProxies ex_auth (Unmap (Addr4 0xCB007107)) \<and>
   HeaderGet ex_forged_wrong ''X-Real-Ip'' = ''10.0.0.1'' \<and>
   realIP ex_lib ex_forged_wrong = (Addr4 0x0A000001, None) \<and>
   Status (fst (handleLogin ex_lib ex_auth ex_env ex_forged_wrong)) = 403 \<and>
   snd (handleLogin ex_lib ex_auth ex_env ex_forged_wrong) =
     [RateCheck ''203.0.113.7'', FindUser ''admin'' ''wrong'', RateInc ''203.0.113.7'',
      LogErrorIP ''10.0.0.1'' (Plain (Error ''invalid username or password''))]"
proof -
  have h: "HeaderGet ex_forged_wrong ''X-Real-Ip'' = ''10.0.0.1''"
    by (simp add: ex_forged_wrong_def XRealIP_def)
  show ?thesis
    using ex_forged_wrong_fields ex_untrusted_peer h ex_realIP_forged_wrong
    by (simp add: ex_handleLogin_forged_wrong ex_lib_sel ex_parse_peer)
qed

text \<open>
  C2. For a login request whose body decodes and whose \<open>RemoteAddr\<close> has the host
  \<open>host\<close>, the calls to the rate limiter are \<^verbatim>\<open>check\<close> with the key \<open>host\<close>, followed,
  unless the key is blocked, by \<^verbatim>\<open>inc\<close> (wrong credentials) or \<^verbatim>\<open>remove\<close> (right
  credentials) with the same key \<open>host\<close>. This holds for every content of the headers
  and every set of trusted proxies, so also for a peer that is no trusted proxy and
  sends a forwarding header that names another address.
\<close>

theorem rate_limiter_key_is_peer:
  assumes "jsonBody r = Inr req"
    and "SplitHost L (RemoteAddr r) = Inr host"
    and "rateLimiter a = Some check"
  shows "filter isRateCall (snd (handleLogin L a ev r)) =
           (if 0 < check host then [RateCheck host]
            else if findUser a (Name req) (Password req) = None
              then [RateCheck host, RateInc host]
            else [RateCheck host, RateRemove host])"
proof (cases "0 < check host")
  case True
  then show ?thesis
    using handleLogin_blocked [OF assms True] by simp
next
  case False
  then have p: "case rateLimiter a of None \<Rightarrow> True | Some check \<Rightarrow> \<not> 0 < check host"
    using assms(3) by simp
  show ?thesis
  proof (cases "findUser a (Name req) (Password req)")
    case None
    then show ?thesis
      using False assms(3) handleLogin_passed [OF assms(1,2) p, of ev]
      by (simp add: handleLogin_checked_invalid filter_rate_realIP_log)
  next
    case (Some u)
    then show ?thesis
      using False assms(3) handleLogin_passed [OF assms(1,2) p, of ev]
      by (simp add: handleLogin_checked_valid filter_rate_realIP_log)
  qed
qed

theorem rate_limiter_key_is_peer_witness:
  "jsonBody ex_forged_wrong = Inr \<lparr>Name = ''admin'', Password = ''wrong''\<rparr> \<and>
   SplitHost ex_lib (RemoteAddr ex_forged_wrong) = Inr ''203.0.113.7'' \<and>
   rateLimiter ex_auth = Some (\<lambda>k. if k = ''198.51.100.9'' then 90500000000 else 0) \<and>
   \<not> trustedProxies ex_auth (Addr4 0xCB007107) \<and>
   realIP ex_lib ex_forged_wrong = (Addr4 0x0A000001, None) \<and>
   filter isRateCall (snd (handleLogin ex_lib ex_auth ex_env ex_forged_wrong)) =
     [RateCheck ''203.0.113.7'', RateInc ''203.0.113.7''] \<and>
   filter isRateCall (snd (handleLogin ex_lib ex_auth ex_env ex_forged)) =
     [RateCheck ''203.0.113.7'', RateRemove ''203.0.113.7'']"
  using rate_limiter_key_is_peer [OF ex_forged_wrong_fields ex_limiter, of ex_env]
    rate_limiter_key_is_peer [OF ex_forged_fields ex_limiter, of ex_env]
    ex_forged_wrong_fields ex_limiter ex_untrusted_peer ex_realIP_forged_wrong
  by (simp add: ex_findUser)

text \<open>
  C3, as amended. The claim says that a request with the correct password from a
  blocked key is answered with status 403. The code answers it with status 429, a
  \<^verbatim>\<open>Retry-After\<close> header (the decimal digits of the wait converted to seconds) and
  no cookie: the block holds whatever the credentials are.
\<close>

theorem blocked_correct_password_429:
  assumes "jsonBody r = Inr req"
    and "SplitHost L (RemoteAddr r) = Inr host"
    and "rateLimiter a = Some check"
    and "0 < check host"
    and "findUser a (Name req) (Password req) = Some u"
  shows "Status (fst (handleLogin L a ev r)) = 429 \<and>
         Headers (fst (handleLogin L a ev r)) ''Retry-After''
           = Some (Itoa (intSeconds (check host))) \<and>
         SetCookie (fst (handleLogin L a ev r)) = None"
  using handleLogin_blocked [OF assms(1-4)]
  by (simp add: StatusTooManyRequests_def RetryAfter_def)

theorem blocked_correct_password_429_witness:
  "jsonBody ex_blocked = Inr \<lparr>Name = ''admin'', Password = ''secret''\<rparr> \<and>
   SplitHost ex_lib (RemoteAddr ex_blocked) = Inr ''198.51.100.9'' \<and>
   rateLimiter ex_auth = Some (\<lambda>k. if k = ''198.51.100.9'' then 90500000000 else 0) \<and>
   (0::int) < (if ''198.51.100.9'' = ''198.51.100.9'' then 90500000000 else 0) \<and>
   findUser ex_auth ''admin'' ''secret'' = Some ''admin'' \<and>
   Status (fst (handleLogin ex_lib ex_auth ex_env ex_blocked)) = 429 \<and>
   Headers (fst (handleLogin ex_lib ex_auth ex_env ex_blocked)) ''Retry-After'' = Some ''90'' \<and>
   SetCookie (fst (handleLogin ex_lib ex_auth ex_env ex_blocked)) = None"
proof -
  have pos: "(0::int) < (if ''198.51.100.9'' = ''198.51.100.9'' then 90500000000 else 0)"
    by simp
  have u: "findUser ex_auth (Name \<lparr>Name = ''admin'', Password = ''secret''\<rparr>)
             (Password \<lparr>Name = ''admin'', Password = ''secret''\<rparr>) = Some ''admin''"
    by (simp add: ex_findUser)
  show ?thesis
    using blocked_correct_password_429 [OF ex_blocked_fields ex_limiter pos u, of ex_env]
      ex_blocked_fields ex_limiter
    by (simp add: ex_findUser ex_wait_seconds Itoa_def digits.simps)
qed

theorem blocked_correct_password_counterexample:
  "jsonBody ex_blocked = Inr \<lparr>Name = ''admin'', Password = ''secret''\<rparr> \<and>
   findUser ex_auth ''admin'' ''secret'' = Some ''admin'' \<and>
   SplitHost ex_lib (RemoteAddr ex_blocked) = Inr ''198.51.100.9'' \<and>
   rateLimiter ex_auth = Some (\<lambda>k. if k = ''198.51.100.9'' then 90500000000 else 0) \<and>
   Status (fst (handleLogin ex_lib ex_auth ex_env ex_blocked)) = 429 \<and>
   Status (fst (handleLogin ex_lib ex_auth ex_env ex_blocked)) \<noteq> 403"
  using handleLogin_blocked [OF ex_blocked_fields ex_limiter, of ex_env]
    ex_blocked_fields ex_limiter
  by (simp add: ex_findUser StatusTooManyRequests_def)

text \<open>
  C4. If the rate limiter reports a non-zero wait for the client key (a wait is not
  negative), the request fails as rate-limited with status 429, and the credential
  verifier is not invoked: the calls of the handler are the limiter's \<^verbatim>\<open>check\<close> and
  the log line, no call of \<^verbatim>\<open>findUser\<close> is among them, and the handler does the same
  for every \<^verbatim>\<open>findUser\<close>.
\<close>

theorem blocked_skips_findUser:
  assumes "jsonBody r = Inr req"
    and "SplitHost L (RemoteAddr r) = Inr host"
    and "rateLimiter a = Some check"
    and "check host \<noteq> 0"
    and "0 \<le> check host"
  shows "Status (fst (handleLogin L a ev r)) = 429 \<and>
         Body (fst (handleLogin L a ev r)) = ErrorText (BlockedFor (check host)) \<and>
         snd (handleLogin L a ev r) = [RateCheck host, LogErrorIP host (BlockedFor (check host))] \<and>
         (\<forall>n p. FindUser n p \<notin> set (snd (handleLogin L a ev r))) \<and>
         (\<forall>f. handleLogin L (a\<lparr>findUser := f\<rparr>) ev r = handleLogin L a ev r)"
proof -
  have pos: "0 < check host" using assms(4,5) by simp
  have b: "handleLogin L a ev r =
       (\<lparr>Status = StatusTooManyRequests,
         Headers = [RetryAfter \<mapsto> Itoa (intSeconds (check host))],
         SetCookie = None,
         Body = ErrorText (BlockedFor (check host))\<rparr>,
        [RateCheck host, LogErrorIP host (BlockedFor (check host))])"
    using handleLogin_blocked [OF assms(1-3) pos] .
  have f: "handleLogin L (a\<lparr>findUser := f\<rparr>) ev r = handleLogin L a ev r" for f
  proof -
    have l: "rateLimiter (a\<lparr>findUser := f\<rparr>) = Some check" using assms(3) by simp
    show ?thesis
      using handleLogin_blocked [OF assms(1,2) l pos, of ev] b by simp
  qed
  show ?thesis
    using f by (simp add: b StatusTooManyRequests_def)
qed

theorem blocked_skips_findUser_witness:
  "jsonBody ex_blocked = Inr \<lparr>Name = ''admin'', Password = ''secret''\<rparr> \<and>
   SplitHost ex_lib (RemoteAddr ex_blocked) = Inr ''198.51.100.9'' \<and>
   rateLimiter ex_auth = Some (\<lambda>k. if k = ''198.51.100.9'' then 90500000000 else 0) \<and>
   (if ''198.51.100.9'' = ''198.51.100.9'' then 90500000000 else 0) \<noteq> (0::int) \<and>
   (0::int) \<le> (if ''198.51.100.9'' = ''198.51.100.9'' then 90500000000 else 0) \<and>
   Status (fst (handleLogin ex_lib ex_auth ex_env ex_blocked)) = 429 \<and>
   snd (handleLogin ex_lib ex_auth ex_env ex_blocked) =
     [RateCheck ''198.51.100.9'', LogErrorIP ''198.51.100.9'' (BlockedFor 90500000000)] \<and>
   handleLogin ex_lib (ex_auth\<lparr>findUser := (\<lambda>n p. Some n)\<rparr>) ex_env ex_blocked
     = handleLogin ex_lib ex_auth ex_env ex_blocked"
proof -
  have nz: "(if ''198.51.100.9'' = ''198.51.100.9'' then 90500000000 else 0) \<noteq> (0::int)"
    by simp
  have nn: "(0::int) \<le> (if ''198.51.100.9'' = ''198.51.100.9'' then 90500000000 else 0)"
    by simp
  show ?thesis
    using blocked_skips_findUser [OF ex_blocked_fields ex_limiter nz nn, of ex_env]
      ex_blocked_fields ex_limiter
    by simp
qed

text \<open>
  C5. The statuses of POST /control/login: 400 for a body that fails JSON decoding
  and for a \<open>RemoteAddr\<close> whose host cannot be split; 429 with a \<^verbatim>\<open>Retry-After\<close> header
  holding the whole seconds of the remaining wait for a blocked client key; 403 for
  invalid credentials; 200 with the session cookie and the headers \<^verbatim>\<open>Cache-Control\<close>,
  \<^verbatim>\<open>Pragma\<close> and \<^verbatim>\<open>Expires\<close> for valid ones. Each case is taken in the order of the
  code: the body first, then the address, then the rate limiter, then the credentials.
  The header of the blocked case is \<open>strconv.Itoa(int(left.Seconds()))\<close>, a conversion
  through \<open>float64\<close>: for every wait of a 64-bit duration it lies between the whole
  seconds of the wait and one more, and for a wait below \<open>2\<^sup>2\<^sup>4\<close> seconds (more than 194
  days) it is exactly the wait divided by a second, rounded down.
\<close>

theorem handleLogin_responses:
  "(jsonBody r = Inl e \<longrightarrow> Status (fst (handleLogin L a ev r)) = 400) \<and>
   (jsonBody r = Inr req \<and> SplitHost L (RemoteAddr r) = Inl e \<longrightarrow>
      Status (fst (handleLogin L a ev r)) = 400) \<and>
   (jsonBody r = Inr req \<and> SplitHost L (RemoteAddr r) = Inr host \<and>
    rateLimiter a = Some check \<and> 0 < check host \<longrightarrow>
      Status (fst (handleLogin L a ev r)) = 429 \<and>
      Headers (fst (handleLogin L a ev r)) ''Retry-After''
        = Some (Itoa (intSeconds (check host))) \<and>
      (check host < 2 ^ 63 \<longrightarrow>
         check host div 1000000000 \<le> intSeconds (check host) \<and>
         intSeconds (check host) \<le> check host div 1000000000 + 1) \<and>
      (check host < 16777216 * 1000000000 \<longrightarrow>
         Headers (fst (handleLogin L a ev r)) ''Retry-After''
           = Some (Itoa (check host div 1000000000)))) \<and>
   (jsonBody r = Inr req \<and> SplitHost L (RemoteAddr r) = Inr host \<and>
    (case rateLimiter a of None \<Rightarrow> True | Some check \<Rightarrow> \<not> 0 < check host) \<and>
    findUser a (Name req) (Password req) = None \<longrightarrow>
      Status (fst (handleLogin L a ev r)) = 403) \<and>
   (jsonBody r = Inr req \<and> SplitHost L (RemoteAddr r) = Inr host \<and>
    (case rateLimiter a of None \<Rightarrow> True | Some check \<Rightarrow> \<not> 0 < check host) \<and>
    findUser a (Name req) (Password req) = Some u \<longrightarrow>
      Status (fst (handleLogin L a ev r)) = 200 \<and>
      SetCookie (fst (handleLogin L a ev r))
        = Some \<lparr>CName = ''agh_session'', CValue = EncodeToString (sessionToken ev),
                 CPath = ''/'', CExpires = now ev + 365 * 86400, CHttpOnly = True,
                 CSameSite = SameSiteLaxMode\<rparr> \<and>
      Headers (fst (handleLogin L a ev r)) ''Cache-Control''
        = Some ''no-store, no-cache, must-revalidate, proxy-revalidate'' \<and>
      Headers (fst (handleLogin L a ev r)) ''Pragma'' = Some ''no-cache'' \<and>
      Headers (fst (handleLogin L a ev r)) ''Expires'' = Some ''0'')"
proof (intro conjI impI; (elim conjE)?)
  assume "jsonBody r = Inl e"
  then show "Status (fst (handleLogin L a ev r)) = 400"
    by (simp add: handleLogin_bad_body StatusBadRequest_def)
next
  assume "jsonBody r = Inr req" "SplitHost L (RemoteAddr r) = Inl e"
  then show "Status (fst (handleLogin L a ev r)) = 400"
    by (simp add: handleLogin_bad_addr StatusBadRequest_def)
next
  assume b: "jsonBody r = Inr req" "SplitHost L (RemoteAddr r) = Inr host"
    "rateLimiter a = Some check" "0 < check host"
  show "Status (fst (handleLogin L a ev r)) = 429"
    using handleLogin_blocked [OF b] by (simp add: StatusTooManyRequests_def)
  show "Headers (fst (handleLogin L a ev r)) ''Retry-After''
        = Some (Itoa (intSeconds (check host)))"
    using handleLogin_blocked [OF b] by (simp add: RetryAfter_def)
next
  assume b: "0 < check host" and c: "check host < 2 ^ 63"
  show "check host div 1000000000 \<le> intSeconds (check host)"
    using intSeconds_near(1) [of "check host"] b c by simp
next
  assume b: "0 < check host" and c: "check host < 2 ^ 63"
  show "intSeconds (check host) \<le> check host div 1000000000 + 1"
    using intSeconds_near(2) [of "check host"] b c by simp
next
  assume b: "jsonBody r = Inr req" "SplitHost L (RemoteAddr r) = Inr host"
    "rateLimiter a = Some check" "0 < check host"
    and c: "check host < 16777216 * 1000000000"
  have "intSeconds (check host) = check host div 1000000000"
    using intSeconds_exact [of "check host"] b(4) c by simp
  then show "Headers (fst (handleLogin L a ev r)) ''Retry-After''
        = Some (Itoa (check host div 1000000000))"
    using handleLogin_blocked [OF b] by (simp add: RetryAfter_def)
next
  assume p: "jsonBody r = Inr req" "SplitHost L (RemoteAddr r) = Inr host"
    "case rateLimiter a of None \<Rightarrow> True | Some check \<Rightarrow> \<not> 0 < check host"
    and u: "findUser a (Name req) (Password req) = None"
  show "Status (fst (handleLogin L a ev r)) = 403"
    using handleLogin_passed [OF p] handleLogin_checked_invalid [OF u]
    by (simp add: StatusForbidden_def)
next
  assume p: "jsonBody r = Inr req" "SplitHost L (RemoteAddr r) = Inr host"
    "case rateLimiter a of None \<Rightarrow> True | Some check \<Rightarrow> \<not> 0 < check host"
    and u: "findUser a (Name req) (Password req) = Some u"
  have f: "fst (handleLogin L a ev r) =
       \<lparr>Status = StatusOK,
         Headers = [CacheControl \<mapsto> ''no-store, no-cache, must-revalidate, proxy-revalidate'',
                    Pragma \<mapsto> ''no-cache'',
                    Expires \<mapsto> ''0''],
         SetCookie = Some \<lparr>CName = sessionCookieName,
                           CValue = EncodeToString (sessionToken ev),
                           CPath = ''/'',
                           CExpires = now ev + cookieTTL,
                           CHttpOnly = True,
                           CSameSite = SameSiteLaxMode\<rparr>,
         Body = BodyOK\<rparr>"
    using handleLogin_passed [OF p] handleLogin_checked_valid [OF u] by simp
  show "Status (fst (handleLogin L a ev r)) = 200"
    by (simp add: f StatusOK_def)
  show "SetCookie (fst (handleLogin L a ev r))
        = Some \<lparr>CName = ''agh_session'', CValue = EncodeToString (sessionToken ev),
                 CPath = ''/'', CExpires = now ev + 365 * 86400, CHttpOnly = True,
                 CSameSite = SameSiteLaxMode\<rparr>"
    by (simp add: f sessionCookieName_def cookieTTL_def)
  show "Headers (fst (handleLogin L a ev r)) ''Cache-Control''
        = Some ''no-store, no-cache, must-revalidate, proxy-revalidate''"
    by (simp add: f CacheControl_def Pragma_def Expires_def)
  show "Headers (fst (handleLogin L a ev r)) ''Pragma'' = Some ''no-cache''"
    by (simp add: f CacheControl_def Pragma_def Expires_def)
  show "Headers (fst (handleLogin L a ev r)) ''Expires'' = Some ''0''"
    by (simp add: f CacheControl_def Pragma_def Expires_def)
qed

theorem handleLogin_responses_witness:
  "jsonBody (ex_request\<lparr>jsonBody := Inl (Error ''unexpected EOF'')\<rparr>)
     = Inl (Error ''unexpected EOF'') \<and>
   Status (fst (handleLogin ex_lib ex_auth ex_env
                  (ex_request\<lparr>jsonBody := Inl (Error ''unexpected EOF'')\<rparr>))) = 400 \<and>
   SplitHost ex_lib (RemoteAddr (ex_request\<lparr>RemoteAddr := ''1:2:3''\<rparr>))
     = Inl (Error ''too many colons in address'') \<and>
   Status (fst (handleLogin ex_lib ex_auth ex_env (ex_request\<lparr>RemoteAddr := ''1:2:3''\<rparr>))) = 400 \<and>
   SplitHost ex_lib (RemoteAddr ex_blocked) = Inr ''198.51.100.9'' \<and>
   Status (fst (handleLogin ex_lib ex_auth ex_env ex_blocked)) = 429 \<and>
   (90500000000::int) < 16777216 * 1000000000 \<and>
   Headers (fst (handleLogin ex_lib ex_auth ex_env ex_blocked)) ''Retry-After'' = Some ''90'' \<and>
   findUser ex_auth ''admin'' ''wrong'' = None \<and>
   Status (fst (handleLogin ex_lib ex_auth ex_env ex_request_wrong)) = 403 \<and>
   findUser ex_auth ''admin'' ''secret'' = Some ''admin'' \<and>
   Status (fst (handleLogin ex_lib ex_auth ex_env ex_request)) = 200 \<and>
   SetCookie (fst (handleLogin ex_lib ex_auth ex_env ex_request))
     = Some \<lparr>CName = ''agh_session'', CValue = ''0102030405060708090a0b0c0d0e0fff'',
              CPath = ''/'', CExpires = 1731536000, CHttpOnly = True,
              CSameSite = SameSiteLaxMode\<rparr> \<and>
   Headers (fst (handleLogin ex_lib ex_auth ex_env ex_request)) ''Cache-Control''
     = Some ''no-store, no-cache, must-revalidate, proxy-revalidate'' \<and>
   Headers (fst (handleLogin ex_lib ex_auth ex_env ex_request)) ''Pragma'' = Some ''no-cache'' \<and>
   Headers (fst (handleLogin ex_lib ex_auth ex_env ex_request)) ''Expires'' = Some ''0''"
proof -
  have b1: "jsonBody (ex_request\<lparr>jsonBody := Inl (Error ''unexpected EOF'')\<rparr>)
              = Inl (Error ''unexpected EOF'')"
    by simp
  have b2: "jsonBody (ex_request\<lparr>RemoteAddr := ''1:2:3''\<rparr>)
              = Inr \<lparr>Name = ''admin'', Password = ''secret''\<rparr> \<and>
            SplitHost ex_lib (RemoteAddr (ex_request\<lparr>RemoteAddr := ''1:2:3''\<rparr>))
              = Inl (Error ''too many colons in address'')"
    by (simp add: ex_request_def ex_lib_sel ex_split_bad)
  have b3: "jsonBody ex_blocked = Inr \<lparr>Name = ''admin'', Password = ''secret''\<rparr> \<and>
            SplitHost ex_lib (RemoteAddr ex_blocked) = Inr ''198.51.100.9'' \<and>
            rateLimiter ex_auth = Some (\<lambda>k. if k = ''198.51.100.9'' then 90500000000 else 0) \<and>
            (0::int) < (if ''198.51.100.9'' = ''198.51.100.9'' then 90500000000 else 0)"
    using ex_blocked_fields ex_limiter by simp
  have b4: "jsonBody ex_request_wrong = Inr \<lparr>Name = ''admin'', Password = ''wrong''\<rparr> \<and>
            SplitHost ex_lib (RemoteAddr ex_request_wrong) = Inr ''203.0.113.7'' \<and>
            (case rateLimiter ex_auth of None \<Rightarrow> True
             | Some check \<Rightarrow> \<not> 0 < check ''203.0.113.7'') \<and>
            findUser ex_auth (Name \<lparr>Name = ''admin'', Password = ''wrong''\<rparr>)
              (Password \<lparr>Name = ''admin'', Password = ''wrong''\<rparr>) = None"
    using ex_request_wrong_fields ex_passed by (simp add: ex_findUser)
  have b5: "jsonBody ex_request = Inr \<lparr>Name = ''admin'', Password = ''secret''\<rparr> \<and>
            SplitHost ex_lib (RemoteAddr ex_request) = Inr ''203.0.113.7'' \<and>
            (case rateLimiter ex_auth of None \<Rightarrow> True
             | Some check \<Rightarrow> \<not> 0 < check ''203.0.113.7'') \<and>
            findUser ex_auth (Name \<lparr>Name = ''admin'', Password = ''secret''\<rparr>)
              (Password \<lparr>Name = ''admin'', Password = ''secret''\<rparr>) = Some ''admin''"
    using ex_request_fields ex_passed by (simp add: ex_findUser)
  have t1: "Status (fst (handleLogin ex_lib ex_auth ex_env
                  (ex_request\<lparr>jsonBody := Inl (Error ''unexpected EOF'')\<rparr>))) = 400"
    using b1 handleLogin_responses [where L = ex_lib and a = ex_auth and ev = ex_env
        and r = "ex_request\<lparr>jsonBody := Inl (Error ''unexpected EOF'')\<rparr>"
        and e = "Error ''unexpected EOF''"]
    by blast
  have t2: "Status (fst (handleLogin ex_lib ex_auth ex_env
                  (ex_request\<lparr>RemoteAddr := ''1:2:3''\<rparr>))) = 400"
    using b2 handleLogin_responses [where L = ex_lib and a = ex_auth and ev = ex_env
        and r = "ex_request\<lparr>RemoteAddr := ''1:2:3''\<rparr>"
        and req = "\<lparr>Name = ''admin'', Password = ''secret''\<rparr>"
        and e = "Error ''too many colons in address''"]
    by blast
  have t3: "Status (fst (handleLogin ex_lib ex_auth ex_env ex_blocked)) = 429 \<and>
            ((if ''198.51.100.9'' = ''198.51.100.9'' then 90500000000 else 0)
               < (16777216::int) * 1000000000 \<longrightarrow>
             Headers (fst (handleLogin ex_lib ex_auth ex_env ex_blocked)) ''Retry-After''
               = Some (Itoa ((if ''198.51.100.9'' = ''198.51.100.9'' then 90500000000 else 0)
                               div 1000000000)))"
    using b3 handleLogin_responses [where L = ex_lib and a = ex_auth and ev = ex_env
        and r = ex_blocked and req = "\<lparr>Name = ''admin'', Password = ''secret''\<rparr>"
        and host = "''198.51.100.9''"
        and check = "\<lambda>k. if k = ''198.51.100.9'' then 90500000000 else 0"]
    by blast
  have t4: "Status (fst (handleLogin ex_lib ex_auth ex_env ex_request_wrong)) = 403"
    using b4 handleLogin_responses [where L = ex_lib and a = ex_auth and ev = ex_env
        and r = ex_request_wrong and req = "\<lparr>Name = ''admin'', Password = ''wrong''\<rparr>"
        and host = "''203.0.113.7''"]
    by blast
  have t5: "Status (fst (handleLogin ex_lib ex_auth ex_env ex_request)) = 200 \<and>
      SetCookie (fst (handleLogin ex_lib ex_auth ex_env ex_request))
        = Some \<lparr>CName = ''agh_session'', CValue = EncodeToString (sessionToken ex_env),
                 CPath = ''/'', CExpires = now ex_env + 365 * 86400, CHttpOnly = True,
                 CSameSite = SameSiteLaxMode\<rparr> \<and>
      Headers (fst (handleLogin ex_lib ex_auth ex_env ex_request)) ''Cache-Control''
        = Some ''no-store, no-cache, must-revalidate, proxy-revalidate'' \<and>
      Headers (fst (handleLogin ex_lib ex_auth ex_env ex_request)) ''Pragma'' = Some ''no-cache'' \<and>
      Headers (fst (handleLogin ex_lib ex_auth ex_env ex_request)) ''Expires'' = Some ''0''"
    using b5 handleLogin_responses [where L = ex_lib and a = ex_auth and ev = ex_env
        and r = ex_request and req = "\<lparr>Name = ''admin'', Password = ''secret''\<rparr>"
        and host = "''203.0.113.7''" and u = "''admin''"]
    by blast
  have enc: "EncodeToString [1, 2, 3, 4, 5, 6, 7, 8, 9, 10, 11, 12, 13, 14, 15, 255]
               = ''0102030405060708090a0b0c0d0e0fff''"
    by (simp add: EncodeToString_def hextable_def)
  have ret: "Itoa 90 = ''90''"
    by (simp add: Itoa_def digits.simps)
  show ?thesis
    using b1 b2 b3 t1 t2 t3 t4 t5
    by (simp add: ex_findUser enc ret ex_env_sel)
qed

text \<open>
  C9. The logout handler answers every request, with or without a session cookie,
  with status 302 and the location \<^verbatim>\<open>/login.html\<close>; it has no error path. With a cookie
  it removes the session of the cookie's value and sets a replacement cookie with an
  empty value that expired at the Unix epoch. Called a second time on the sessions
  that the first call left, it gives the same response and leaves the sessions as they
  are.
\<close>

theorem handleLogout_idempotent:
  "Status (fst (handleLogout ss r)) = 302 \<and>
   Headers (fst (handleLogout ss r)) ''Location'' = Some ''/login.html'' \<and>
   (case sessionCookie r of
      None \<Rightarrow>
        SetCookie (fst (handleLogout ss r)) = None \<and> snd (handleLogout ss r) = ss
    | Some v \<Rightarrow>
        SetCookie (fst (handleLogout ss r))
          = Some \<lparr>CName = ''agh_session'', CValue = '''', CPath = ''/'', CExpires = 0,
                   CHttpOnly = True, CSameSite = SameSiteLaxMode\<rparr> \<and>
        snd (handleLogout ss r) = removeSession ss v \<and>
        snd (handleLogout ss r) v = None) \<and>
   handleLogout (snd (handleLogout ss r)) r = handleLogout ss r"
  by (cases "sessionCookie r")
    (simp_all add: handleLogout_def removeSession_def StatusFound_def Location_def
      sessionCookieName_def)

section \<open>Public resources\<close>

lemma matchChunk_loop_failed:
  "\<forall>c \<in> set chunk. c \<noteq> CHR ''['' \<and> c \<noteq> CHR ''?'' \<and> c \<noteq> CHR 0x5C \<Longrightarrow>
     matchChunk_loop True chunk s = Inr None"
proof (induction chunk)
  case Nil
  show ?case by (subst matchChunk_loop.simps) simp
next
  case (Cons c chunk)
  then show ?case by (subst matchChunk_loop.simps) simp
qed

lemma matchChunk_loop_literal:
  "\<forall>c \<in> set chunk. c \<noteq> CHR ''['' \<and> c \<noteq> CHR ''?'' \<and> c \<noteq> CHR 0x5C \<Longrightarrow>
     matchChunk_loop False chunk s =
       (if take (length chunk) s = chunk then Inr (Some (drop (length chunk) s)) else Inr None)"
proof (induction chunk arbitrary: s)
  case Nil
  show ?case by (subst matchChunk_loop.simps) simp
next
  case (Cons c chunk)
  show ?case
  proof (cases s)
    case Nil
    then show ?thesis using Cons.prems
      by (subst matchChunk_loop.simps) (simp add: matchChunk_loop_failed)
  next
    case (Cons x xs)
    show ?thesis
    proof (cases "c = x")
      case True
      then show ?thesis using Cons.prems Cons.IH [of xs] Cons
        by (subst matchChunk_loop.simps) simp
    next
      case False
      then show ?thesis using Cons.prems Cons
        by (subst matchChunk_loop.simps) (simp add: matchChunk_loop_failed)
    qed
  qed
qed

lemma scanChunk_assets: "scanChunk ''/assets/*'' = (False, ''/assets/'', ''*'')"
  by (simp add: scanChunk_def)

lemma scanChunk_login: "scanChunk ''/login.*'' = (False, ''/login.'', ''*'')"
  by (simp add: scanChunk_def)

lemma scanChunk_star: "scanChunk ''*'' = (True, [], [])"
  by (simp add: scanChunk_def)

lemma Match_star: "Match ''*'' name = (CHR ''/'' \<notin> set name, None)"
  by (subst Match.simps) (simp add: scanChunk_star)

lemma checkRest_star: "checkRest ''*'' = None"
  apply (subst checkRest.simps)
  apply (simp add: scanChunk_star matchChunk_def)
  apply (subst matchChunk_loop.simps)
  apply simp
  apply (subst checkRest.simps)
  apply simp
  done

lemma Match_assets:
  "Match ''/assets/*'' p = (take 8 p = ''/assets/'' \<and> CHR ''/'' \<notin> set (drop 8 p), None)"
  by (subst Match.simps)
    (auto simp add: scanChunk_assets matchChunk_def matchChunk_loop_literal Match_star checkRest_star eval_nat_numeral)

lemma Match_login:
  "Match ''/login.*'' p = (take 7 p = ''/login.'' \<and> CHR ''/'' \<notin> set (drop 7 p), None)"
  by (subst Match.simps)
    (auto simp add: scanChunk_login matchChunk_def matchChunk_loop_literal Match_star checkRest_star eval_nat_numeral)

text \<open>
  C10. For every path \<open>p\<close>, \<open>isPublicResource\<close> returns a boolean and reaches neither
  of its panics: both patterns are constant and well formed, so \<open>Match\<close> returns no
  error for them. The boolean says that \<open>p\<close> is \<^verbatim>\<open>/assets/\<close> or \<^verbatim>\<open>/login.\<close> followed by
  any characters but a slash. All the functions of the model are total, so the call
  terminates.
\<close>

theorem isPublicResource_total:
  "isPublicResource p =
     Inr ((take 8 p = ''/assets/'' \<and> CHR ''/'' \<notin> set (drop 8 p)) \<or>
          (take 7 p = ''/login.'' \<and> CHR ''/'' \<notin> set (drop 7 p)))"
  by (simp add: isPublicResource_def Match_assets Match_login)

end
